theory Spec2Isabelle
  imports Complex_Main
begin

section \<open>JavaScript values\<close>

text \<open>
  The repository holds \<^verbatim>\<open>api/stockanews.js\<close> in three versions. The current one has the
  handler with the 8-second deadline and the normalizer \<^verbatim>\<open>transformNewsData\<close>; an earlier
  one has the normalizer \<^verbatim>\<open>transformSvelteKitData\<close>, for a schema with an image; the first
  one passes the upstream payload through. This theory embeds the current handler and both
  normalizers.

  The handler receives the upstream payload as the value \<^verbatim>\<open>response.json()\<close> resolves to:
  a tree of JSON values. A number is an IEEE-754 binary64 value; the finite ones are
  rationals. The sign of zero is not kept: every use of a number in the sources
  (truthiness, \<^verbatim>\<open>*\<close>, \<^verbatim>\<open>new Date\<close>, string conversion) treats \<^verbatim>\<open>-0\<close> as \<^verbatim>\<open>0\<close>.

  A string is a list of UTF-16 code units; a \<^typ>\<open>char\<close> stands for a code unit below 256.
  An object is the list of its own properties, in the order of the JSON text; where a key
  occurs twice the later member wins, as in \<^verbatim>\<open>JSON.parse\<close>.
\<close>

datatype jsnum = Fin rat | PosInf | NegInf | NaN

datatype jsval =
    JUndefined
  | JNull
  | JBool bool
  | JNum jsnum
  | JStr string
  | JArr "jsval list"
  | JObj "(string \<times> jsval) list"

text \<open>An exception value: the \<^verbatim>\<open>name\<close> and \<^verbatim>\<open>message\<close> properties of an Error object.
  The message texts of errors thrown by the engine are those of V8 (Node.js); the sources
  only test them for truthiness or copy them into diagnostics.\<close>

datatype js_error = JsError (err_name: string) (err_message: string)

definition TypeError :: "string \<Rightarrow> js_error" where
  "TypeError msg = JsError ''TypeError'' msg"

definition RangeError :: "string \<Rightarrow> js_error" where
  "RangeError msg = JsError ''RangeError'' msg"

text \<open>\<^verbatim>\<open>ToBoolean\<close>: the test of \<^verbatim>\<open>&&\<close>, \<^verbatim>\<open>||\<close>, \<^verbatim>\<open>?:\<close>, \<^verbatim>\<open>!\<close> and \<^verbatim>\<open>if\<close>.\<close>

fun truthy :: "jsval \<Rightarrow> bool" where
  "truthy JUndefined = False"
| "truthy JNull = False"
| "truthy (JBool b) = b"
| "truthy (JNum n) = (n \<noteq> Fin 0 \<and> n \<noteq> NaN)"
| "truthy (JStr s) = (s \<noteq> [])"
| "truthy (JArr xs) = True"
| "truthy (JObj kvs) = True"

definition nullish :: "jsval \<Rightarrow> bool" where
  "nullish v = (v = JUndefined \<or> v = JNull)"

subsection \<open>Decimal numerals\<close>

fun digits10 :: "nat \<Rightarrow> string" where
  "digits10 n =
     (if n < 10 then [''0123456789'' ! n]
      else digits10 (n div 10) @ [''0123456789'' ! (n mod 10)])"

declare digits10.simps [simp del]

definition pad :: "nat \<Rightarrow> nat \<Rightarrow> string" where
  "pad w n = replicate (w - length (digits10 n)) (CHR ''0'') @ digits10 n"

subsection \<open>Property access\<close>

definition own_property :: "(string \<times> jsval) list \<Rightarrow> string \<Rightarrow> jsval option" where
  "own_property kvs k = map_of (rev kvs) k"

text \<open>
  \<^verbatim>\<open>v.k\<close> on a value that is neither \<^verbatim>\<open>undefined\<close> nor \<^verbatim>\<open>null\<close>, for the property
  names the sources use (\<^verbatim>\<open>nodes\<close>, \<^verbatim>\<open>data\<close>, \<^verbatim>\<open>length\<close>, \<^verbatim>\<open>t\<close>, \<^verbatim>\<open>u\<close>, \<^verbatim>\<open>s\<close>,
  \<^verbatim>\<open>d\<close>, \<^verbatim>\<open>id\<close>, \<^verbatim>\<open>url\<close>, \<^verbatim>\<open>title\<close>, \<^verbatim>\<open>summary\<close>, \<^verbatim>\<open>description\<close>, \<^verbatim>\<open>date\<close>,
  \<^verbatim>\<open>time\<close>, \<^verbatim>\<open>image\<close>, \<^verbatim>\<open>type\<close>) and for those of the response bodies (\<^verbatim>\<open>error\<close>,
  \<^verbatim>\<open>hint\<close>, \<^verbatim>\<open>debug\<close>, \<^verbatim>\<open>articles\<close>, \<^verbatim>\<open>imageUrl\<close>): none of them is defined on a
  built-in prototype except \<^verbatim>\<open>length\<close> of arrays and strings.
\<close>

fun get_field :: "jsval \<Rightarrow> string \<Rightarrow> jsval" where
  "get_field (JObj kvs) k = (case own_property kvs k of Some v \<Rightarrow> v | None \<Rightarrow> JUndefined)"
| "get_field (JArr xs) k =
     (if k = ''length'' then JNum (Fin (of_nat (length xs))) else JUndefined)"
| "get_field (JStr s) k =
     (if k = ''length'' then JNum (Fin (of_nat (length s))) else JUndefined)"
| "get_field v k = JUndefined"

text \<open>\<^verbatim>\<open>v.k\<close>: a TypeError on \<^verbatim>\<open>undefined\<close> and \<^verbatim>\<open>null\<close>.\<close>

definition get_member :: "jsval \<Rightarrow> string \<Rightarrow> js_error + jsval" where
  "get_member v k =
     (if nullish v
      then Inl (TypeError (''Cannot read properties of '' @
                 (if v = JNull then ''null'' else ''undefined'') @
                 '' (reading '' @ [CHR 0x27] @ k @ [CHR 0x27] @ '')''))
      else Inr (get_field v k))"

text \<open>\<^verbatim>\<open>v?.k\<close>\<close>

definition opt_member :: "jsval \<Rightarrow> string \<Rightarrow> jsval" where
  "opt_member v k = (if nullish v then JUndefined else get_field v k)"

text \<open>\<^verbatim>\<open>v?.[i]\<close> for an index \<open>i\<close>\<close>

fun opt_index :: "jsval \<Rightarrow> nat \<Rightarrow> jsval" where
  "opt_index (JArr xs) i = (if i < length xs then xs ! i else JUndefined)"
| "opt_index (JStr s) i = (if i < length s then JStr [s ! i] else JUndefined)"
| "opt_index (JObj kvs) i =
     (case own_property kvs (digits10 i) of Some v \<Rightarrow> v | None \<Rightarrow> JUndefined)"
| "opt_index v i = JUndefined"

definition isArray :: "jsval \<Rightarrow> bool" where
  "isArray v = (case v of JArr xs \<Rightarrow> True | _ \<Rightarrow> False)"

subsection \<open>Strings\<close>

text \<open>White space and line terminators below code unit 256: TAB, LF, VT, FF, CR, SP, NBSP.\<close>

definition is_space :: "char \<Rightarrow> bool" where
  "is_space c = (c \<in> set [CHR 0x09, CHR 0x0A, CHR 0x0B, CHR 0x0C, CHR 0x0D, CHR 0x20, CHR 0xA0])"

text \<open>\<^verbatim>\<open>String.prototype.trim\<close>\<close>

definition trim :: "string \<Rightarrow> string" where
  "trim s = rev (dropWhile is_space (rev (dropWhile is_space s)))"

text \<open>\<^verbatim>\<open>s.split(c)\<close> for a one-character separator: never the empty array.\<close>

fun split :: "char \<Rightarrow> string \<Rightarrow> string list" where
  "split c [] = [Nil]"
| "split c (x # xs) =
     (if x = c then [] # split c xs
      else (case split c xs of [] \<Rightarrow> [x] # [] | w # ws \<Rightarrow> (x # w) # ws))"

text \<open>\<^verbatim>\<open>a.pop()\<close> as an expression: the last element, \<^verbatim>\<open>undefined\<close> on the empty array.\<close>

definition pop :: "string list \<Rightarrow> jsval" where
  "pop a = (if a = [] then JUndefined else JStr (last a))"

section \<open>Numbers\<close>

text \<open>
  Rounding a rational to the nearest binary64 value, ties to even: 53 significant bits,
  least exponent \<open>-1074\<close>, overflow to the infinities from \<open>2 ^ 1024\<close> on.
\<close>

function ilog2 :: "int \<Rightarrow> int" where
  "ilog2 n = (if n < 2 then 0 else ilog2 (n div 2) + 1)"
  by pat_completeness auto
termination
  by (relation "measure nat") auto

declare ilog2.simps [simp del]

definition pow2 :: "int \<Rightarrow> rat" where
  "pow2 e = (if 0 \<le> e then 2 ^ nat e else 1 / 2 ^ nat (- e))"

text \<open>\<open>floor_log2 a\<close> is the \<open>e\<close> with \<open>2 ^ e \<le> a < 2 ^ (e + 1)\<close>, for \<open>a > 0\<close>.\<close>

definition floor_log2 :: "rat \<Rightarrow> int" where
  "floor_log2 a =
     (let (n, d) = quotient_of a;
          e0 = ilog2 n - ilog2 d
      in if pow2 e0 \<le> a then e0 else e0 - 1)"

definition round_half_even :: "rat \<Rightarrow> int" where
  "round_half_even q =
     (let f = \<lfloor>q\<rfloor>; r = q - of_int f
      in if r < 1 / 2 then f else if 1 / 2 < r then f + 1
         else if even f then f else f + 1)"

definition round_to_double :: "rat \<Rightarrow> jsnum" where
  "round_to_double q =
     (if q = 0 then Fin 0
      else let a = \<bar>q\<bar>;
               p = max (floor_log2 a) (- 1022) - 52;
               r = of_int (round_half_even (a / pow2 p)) * pow2 p
           in if pow2 1024 \<le> r then (if 0 < q then PosInf else NegInf)
              else Fin (if 0 < q then r else - r))"

text \<open>The \<^verbatim>\<open>*\<close> operator on two numbers.\<close>

fun mul :: "jsnum \<Rightarrow> jsnum \<Rightarrow> jsnum" where
  "mul (Fin a) (Fin b) = round_to_double (a * b)"
| "mul NaN y = NaN"
| "mul x NaN = NaN"
| "mul (Fin a) PosInf = (if a = 0 then NaN else if 0 < a then PosInf else NegInf)"
| "mul (Fin a) NegInf = (if a = 0 then NaN else if 0 < a then NegInf else PosInf)"
| "mul PosInf (Fin b) = (if b = 0 then NaN else if 0 < b then PosInf else NegInf)"
| "mul NegInf (Fin b) = (if b = 0 then NaN else if 0 < b then NegInf else PosInf)"
| "mul PosInf PosInf = PosInf"
| "mul PosInf NegInf = NegInf"
| "mul NegInf PosInf = NegInf"
| "mul NegInf NegInf = PosInf"

section \<open>Conversions between numbers and strings\<close>

subsection \<open>\<^verbatim>\<open>Number::toString\<close>, radix 10\<close>

function ilog10 :: "int \<Rightarrow> int" where
  "ilog10 n = (if n < 10 then 0 else ilog10 (n div 10) + 1)"
  by pat_completeness auto
termination
  by (relation "measure nat") auto

declare ilog10.simps [simp del]

definition pow10 :: "int \<Rightarrow> rat" where
  "pow10 e = (if 0 \<le> e then 10 ^ nat e else 1 / 10 ^ nat (- e))"

text \<open>\<open>floor_log10 a\<close> is the \<open>e\<close> with \<open>10 ^ e \<le> a < 10 ^ (e + 1)\<close>, for \<open>a > 0\<close>.\<close>

definition floor_log10 :: "rat \<Rightarrow> int" where
  "floor_log10 a =
     (let (n, d) = quotient_of a;
          e0 = ilog10 n - ilog10 d
      in if pow10 e0 \<le> a then e0 else e0 - 1)"

text \<open>
  The decimal numbers \<open>s * 10 ^ (n - k)\<close> with \<open>k\<close> digits (\<open>10 ^ (k - 1) \<le> s < 10 ^ k\<close>)
  that round to the double \<open>q > 0\<close>: only the two neighbours of \<open>q\<close> can.
\<close>

definition digit_candidates :: "rat \<Rightarrow> nat \<Rightarrow> (int \<times> int) list" where
  "digit_candidates q k =
     (let n = floor_log10 q + 1;
          lo = \<lfloor>q / pow10 (n - int k)\<rfloor>;
          up = (if lo + 1 = 10 ^ k then (10 ^ (k - 1), n + 1) else (lo + 1, n))
      in filter (\<lambda>(s, n'). round_to_double (of_int s * pow10 (n' - int k)) = Fin q)
           [(lo, n), up])"

text \<open>Of the candidates the one nearest to \<open>q\<close>, the even one on a tie.\<close>

definition nearest_candidate :: "rat \<Rightarrow> nat \<Rightarrow> (int \<times> int) list \<Rightarrow> (int \<times> int) option" where
  "nearest_candidate q k cs =
     (case cs of
        [] \<Rightarrow> None
      | [c] \<Rightarrow> Some c
      | (s1, n1) # (s2, n2) # _ \<Rightarrow>
          (let d1 = \<bar>of_int s1 * pow10 (n1 - int k) - q\<bar>;
               d2 = \<bar>of_int s2 * pow10 (n2 - int k) - q\<bar>
           in if d1 < d2 then Some (s1, n1) else if d2 < d1 then Some (s2, n2)
              else if even s1 then Some (s1, n1) else Some (s2, n2)))"

text \<open>The least number of digits \<open>k\<close> that has a candidate, with its \<open>s\<close> and \<open>n\<close>;
  seventeen digits always suffice for a double.\<close>

fun shortest_digits :: "rat \<Rightarrow> nat \<Rightarrow> nat \<Rightarrow> int \<times> nat \<times> int" where
  "shortest_digits q k 0 = (\<lfloor>q / pow10 (floor_log10 q + 1 - int k)\<rfloor>, k, floor_log10 q + 1)"
| "shortest_digits q k (Suc fuel) =
     (case nearest_candidate q k (digit_candidates q k) of
        Some (s, n) \<Rightarrow> (s, k, n)
      | None \<Rightarrow> shortest_digits q (Suc k) fuel)"

definition format_digits :: "int \<Rightarrow> nat \<Rightarrow> int \<Rightarrow> string" where
  "format_digits s k n =
     (let ds = digits10 (nat s)
      in if int k \<le> n \<and> n \<le> 21 then ds @ replicate (nat (n - int k)) (CHR ''0'')
         else if 0 < n \<and> n \<le> 21 then take (nat n) ds @ ''.'' @ drop (nat n) ds
         else if - 6 < n \<and> n \<le> 0 then ''0.'' @ replicate (nat (- n)) (CHR ''0'') @ ds
         else let e = n - 1;
                  es = (if e < 0 then ''-'' else ''+'') @ digits10 (nat \<bar>e\<bar>)
              in if k = 1 then ds @ ''e'' @ es
                 else take 1 ds @ ''.'' @ drop 1 ds @ ''e'' @ es)"

definition positive_to_string :: "rat \<Rightarrow> string" where
  "positive_to_string q = (case shortest_digits q 1 17 of (s, k, n) \<Rightarrow> format_digits s k n)"

fun NumberToString :: "jsnum \<Rightarrow> string" where
  "NumberToString NaN = ''NaN''"
| "NumberToString PosInf = ''Infinity''"
| "NumberToString NegInf = ''-Infinity''"
| "NumberToString (Fin q) =
     (if q = 0 then ''0''
      else if q < 0 then ''-'' @ positive_to_string (- q)
      else positive_to_string q)"

subsection \<open>\<^verbatim>\<open>StringToNumber\<close>\<close>

definition is_digit :: "char \<Rightarrow> bool" where
  "is_digit c = (c \<in> set ''0123456789'')"

definition digit_value :: "char \<Rightarrow> int option" where
  "digit_value =
     map_of (zip ''0123456789abcdef'' [0, 1, 2, 3, 4, 5, 6, 7, 8, 9, 10, 11, 12, 13, 14, 15] @
             zip ''ABCDEF'' [10, 11, 12, 13, 14, 15])"

text \<open>The value of a digit string in a base; \<open>None\<close> when a character is no digit of it.\<close>

fun digits_value :: "int \<Rightarrow> int \<Rightarrow> string \<Rightarrow> int option" where
  "digits_value base acc [] = Some acc"
| "digits_value base acc (c # cs) =
     (case digit_value c of
        None \<Rightarrow> None
      | Some d \<Rightarrow> if d < base then digits_value base (acc * base + d) cs else None)"

text \<open>\<^verbatim>\<open>0x\<close>, \<^verbatim>\<open>0o\<close> and \<^verbatim>\<open>0b\<close> literals: no sign, at least one digit.\<close>

definition radix_of_prefix :: "string \<Rightarrow> int option" where
  "radix_of_prefix s =
     (case s of
        c0 # c1 # _ \<Rightarrow>
          (if c0 \<noteq> CHR ''0'' then None
           else if c1 = CHR ''x'' \<or> c1 = CHR ''X'' then Some 16
           else if c1 = CHR ''o'' \<or> c1 = CHR ''O'' then Some 8
           else if c1 = CHR ''b'' \<or> c1 = CHR ''B'' then Some 2
           else None)
      | _ \<Rightarrow> None)"

definition split_sign :: "string \<Rightarrow> int \<times> string" where
  "split_sign s =
     (case s of
        c # cs \<Rightarrow> (if c = CHR ''+'' then (1, cs) else if c = CHR ''-'' then (- 1, cs) else (1, s))
      | [] \<Rightarrow> (1, s))"

text \<open>The exponent part: empty, or \<^verbatim>\<open>e\<close> or \<^verbatim>\<open>E\<close>, a sign and at least one digit.\<close>

definition exponent_part :: "string \<Rightarrow> int option" where
  "exponent_part s =
     (case s of
        [] \<Rightarrow> Some 0
      | c # cs \<Rightarrow>
          (if c = CHR ''e'' \<or> c = CHR ''E''
           then (case split_sign cs of
                   (sg, ds) \<Rightarrow>
                     (if ds = [] then None
                      else map_option (\<lambda>v. sg * v) (digits_value 10 0 ds)))
           else None))"

definition decimal_literal :: "string \<Rightarrow> jsnum" where
  "decimal_literal s =
     (case split_sign s of
        (sg, r) \<Rightarrow>
          if r = ''Infinity'' then (if 0 < sg then PosInf else NegInf)
          else let ip = takeWhile is_digit r;
                   r1 = dropWhile is_digit r;
                   dot = (r1 \<noteq> [] \<and> hd r1 = CHR ''.'');
                   fp = (if dot then takeWhile is_digit (tl r1) else []);
                   r2 = (if dot then dropWhile is_digit (tl r1) else r1)
               in if ip = [] \<and> fp = [] then NaN
                  else (case (digits_value 10 0 (ip @ fp), exponent_part r2) of
                          (Some m, Some e) \<Rightarrow>
                            round_to_double (of_int (sg * m) * pow10 (e - int (length fp)))
                        | _ \<Rightarrow> NaN))"

definition StringToNumber :: "string \<Rightarrow> jsnum" where
  "StringToNumber str =
     (let s = trim str
      in if s = [] then Fin 0
         else (case radix_of_prefix s of
                 Some b \<Rightarrow>
                   (if drop 2 s = [] then NaN
                    else (case digits_value b 0 (drop 2 s) of
                            Some v \<Rightarrow> round_to_double (of_int v)
                          | None \<Rightarrow> NaN))
               | None \<Rightarrow> decimal_literal s))"

subsection \<open>\<^verbatim>\<open>ToString\<close> and \<^verbatim>\<open>ToNumber\<close>\<close>

text \<open>
  An object parsed from JSON has no callable own property. Converting it to a primitive
  calls \<^verbatim>\<open>Object.prototype.toString\<close>, unless an own property \<^verbatim>\<open>toString\<close> hides it:
  then no method yields a primitive, a TypeError. An array is joined with commas,
  \<^verbatim>\<open>undefined\<close> and \<^verbatim>\<open>null\<close> elements as the empty string.
\<close>

fun ToString :: "jsval \<Rightarrow> js_error + string"
  and join :: "jsval list \<Rightarrow> js_error + string" where
  "ToString JUndefined = Inr ''undefined''"
| "ToString JNull = Inr ''null''"
| "ToString (JBool b) = Inr (if b then ''true'' else ''false'')"
| "ToString (JNum n) = Inr (NumberToString n)"
| "ToString (JStr s) = Inr s"
| "ToString (JArr xs) = join xs"
| "ToString (JObj kvs) =
     (if own_property kvs ''toString'' \<noteq> None
      then Inl (TypeError ''Cannot convert object to primitive value'')
      else Inr ''[object Object]'')"
| "join [] = Inr []"
| "join (x # xs) =
     (case (if nullish x then Inr [] else ToString x) of
        Inl e \<Rightarrow> Inl e
      | Inr s \<Rightarrow>
          (if xs = [] then Inr s
           else (case join xs of Inl e \<Rightarrow> Inl e | Inr r \<Rightarrow> Inr (s @ '','' @ r))))"

fun ToNumber :: "jsval \<Rightarrow> js_error + jsnum" where
  "ToNumber JUndefined = Inr NaN"
| "ToNumber JNull = Inr (Fin 0)"
| "ToNumber (JBool b) = Inr (Fin (if b then 1 else 0))"
| "ToNumber (JNum n) = Inr n"
| "ToNumber (JStr s) = Inr (StringToNumber s)"
| "ToNumber v = (case ToString v of Inl e \<Rightarrow> Inl e | Inr s \<Rightarrow> Inr (StringToNumber s))"

section \<open>Dates\<close>

text \<open>
  \<^verbatim>\<open>TimeClip\<close>: the time value of \<^verbatim>\<open>new Date(x)\<close> for a number \<open>x\<close>, in milliseconds
  since the epoch; \<open>None\<close> is the invalid date (time value \<^verbatim>\<open>NaN\<close>).
\<close>

definition ToIntegerOrInfinity :: "rat \<Rightarrow> int" where
  "ToIntegerOrInfinity q = (if 0 \<le> q then \<lfloor>q\<rfloor> else - \<lfloor>- q\<rfloor>)"

fun TimeClip :: "jsnum \<Rightarrow> int option" where
  "TimeClip (Fin q) = (if 8640000000000000 < \<bar>q\<bar> then None else Some (ToIntegerOrInfinity q))"
| "TimeClip x = None"

text \<open>Year, month and day of a day number (days since 1970-01-01), proleptic Gregorian.\<close>

definition civil_from_days :: "int \<Rightarrow> int \<times> int \<times> int" where
  "civil_from_days day =
     (let z = day + 719468;
          era = z div 146097;
          doe = z mod 146097;
          yoe = (doe - doe div 1460 + doe div 36524 - doe div 146096) div 365;
          doy = doe - (365 * yoe + yoe div 4 - yoe div 100);
          mp = (5 * doy + 2) div 153;
          d = doy - (153 * mp + 2) div 5 + 1;
          m = (if mp < 10 then mp + 3 else mp - 9);
          y = yoe + era * 400 + (if m \<le> 2 then 1 else 0)
      in (y, m, d))"

text \<open>The year of the ISO format: four digits from 0 to 9999, else a sign and six digits.\<close>

definition iso_year :: "int \<Rightarrow> string" where
  "iso_year y =
     (if 0 \<le> y \<and> y \<le> 9999 then pad 4 (nat y)
      else (if y < 0 then ''-'' else ''+'') @ pad 6 (nat \<bar>y\<bar>))"

text \<open>\<^verbatim>\<open>YYYY-MM-DDTHH:mm:ss.sssZ\<close> of a valid time value.\<close>

definition iso_of_time :: "int \<Rightarrow> string" where
  "iso_of_time tv =
     (let (y, m, d) = civil_from_days (tv div 86400000);
          t = tv mod 86400000
      in iso_year y @ ''-'' @ pad 2 (nat m) @ ''-'' @ pad 2 (nat d) @ ''T'' @
         pad 2 (nat (t div 3600000)) @ '':'' @ pad 2 (nat (t div 60000 mod 60)) @ '':'' @
         pad 2 (nat (t div 1000 mod 60)) @ ''.'' @ pad 3 (nat (t mod 1000)) @ ''Z'')"

text \<open>\<^verbatim>\<open>new Date(x).toISOString()\<close> for a number \<open>x\<close>: a RangeError on the invalid date.\<close>

definition Date_toISOString :: "jsnum \<Rightarrow> js_error + string" where
  "Date_toISOString x =
     (case TimeClip x of
        None \<Rightarrow> Inl (RangeError ''Invalid time value'')
      | Some tv \<Rightarrow> Inr (iso_of_time tv))"

section \<open>The normalizer \<^verbatim>\<open>transformNewsData\<close>\<close>

text \<open>The output record of one article, and the success shape of the response envelope.\<close>

record article =
  id' :: string
  title :: string
  summary :: string
  url :: string
  publishedAt :: "string option"
  source :: string

record envelope =
  success :: bool
  count :: nat
  lastUpdated :: string
  articles :: "article list"

text \<open>
  The three object shapes \<^verbatim>\<open>transformNewsData\<close> returns:
  \<^verbatim>\<open>{ error: 'Unexpected data structure', hasNodes, nodeCount }\<close>,
  \<^verbatim>\<open>{ error: err.message }\<close> and the envelope.
\<close>

datatype transform_result =
    Unexpected bool jsval
  | Caught string
  | Success envelope

text \<open>The property \<^verbatim>\<open>error\<close> of the returned object.\<close>

fun error_of :: "transform_result \<Rightarrow> jsval" where
  "error_of (Unexpected h n) = JStr ''Unexpected data structure''"
| "error_of (Caught m) = JStr m"
| "error_of (Success e) = JUndefined"

text \<open>The filter \<^verbatim>\<open>item => item && item.t && item.u\<close>.\<close>

definition keep :: "jsval \<Rightarrow> bool" where
  "keep item = (truthy item \<and> truthy (get_field item ''t'') \<and> truthy (get_field item ''u''))"

text \<open>Calling \<^verbatim>\<open>v.m(...)\<close> where \<^verbatim>\<open>v\<close> is not a string: a value parsed from JSON has no
  callable property, so the call throws; \<open>expr\<close> is the source text of \<^verbatim>\<open>v\<close>.\<close>

definition not_callable :: "jsval \<Rightarrow> string \<Rightarrow> string \<Rightarrow> js_error" where
  "not_callable v expr m =
     (if nullish v
      then TypeError (''Cannot read properties of '' @
             (if v = JNull then ''null'' else ''undefined'') @
             '' (reading '' @ [CHR 0x27] @ m @ [CHR 0x27] @ '')'')
      else TypeError (expr @ ''.'' @ m @ '' is not a function''))"

text \<open>\<^verbatim>\<open>item.d ? new Date(item.d * 1000).toISOString() : null\<close>\<close>

definition published_at :: "jsval \<Rightarrow> js_error + string option" where
  "published_at d =
     (if truthy d
      then (case ToNumber d of
              Inl e \<Rightarrow> Inl e
            | Inr n \<Rightarrow>
                (case Date_toISOString (mul n (Fin 1000)) of
                   Inl e \<Rightarrow> Inl e
                 | Inr str \<Rightarrow> Inr (Some str)))
      else Inr None)"

text \<open>
  The callback of \<^verbatim>\<open>map\<close>, property by property in source order; \<open>now\<close> is what
  \<^verbatim>\<open>Date.now()\<close> returns if the callback calls it.
\<close>

definition make_article :: "nat \<Rightarrow> jsval \<Rightarrow> js_error + article" where
  "make_article now item =
     (case get_member item ''u'' of
        Inl e \<Rightarrow> Inl e
      | Inr u \<Rightarrow>
     (case u of
        JStr us \<Rightarrow>
          (let seg = pop (split (CHR ''/'') us);
               ident = (case seg of
                          JStr i \<Rightarrow> (if i \<noteq> [] then i else digits10 now)
                        | _ \<Rightarrow> digits10 now)
           in case get_field item ''t'' of
                JStr ts \<Rightarrow>
                  (let s = get_field item ''s''
                   in case (if truthy s then s else JStr []) of
                        JStr ss \<Rightarrow>
                          (case published_at (get_field item ''d'') of
                             Inl e \<Rightarrow> Inl e
                           | Inr p \<Rightarrow>
                               Inr \<lparr>id' = ident,
                                    title = trim ts,
                                    summary = trim ss,
                                    url = ''https://stockanalysis.com'' @ us,
                                    publishedAt = p,
                                    source = ''StockAnalysis''\<rparr>)
                      | s' \<Rightarrow> Inl (not_callable s' (''(item.s || '' @ [CHR 0x22, CHR 0x22] @ '')'') ''trim''))
              | t \<Rightarrow> Inl (not_callable t ''item.t'' ''trim''))
      | _ \<Rightarrow> Inl (not_callable u ''item.u'' ''split'')))"

text \<open>Whether the callback reads the clock: the URL path is a string with an empty last
  segment.\<close>

definition uses_clock :: "jsval \<Rightarrow> bool" where
  "uses_clock item =
     (case get_field item ''u'' of
        JStr us \<Rightarrow> \<not> truthy (pop (split (CHR ''/'') us))
      | _ \<Rightarrow> False)"

text \<open>
  \<^verbatim>\<open>Array.prototype.map\<close> with that callback. The clock is the sequence of values that
  successive calls of \<^verbatim>\<open>Date.now()\<close> return; \<open>k\<close> counts the calls made so far. The first
  exception ends the loop.
\<close>

fun map_articles :: "(nat \<Rightarrow> nat) \<Rightarrow> nat \<Rightarrow> jsval list \<Rightarrow> js_error + article list \<times> nat" where
  "map_articles clock k [] = Inr ([], k)"
| "map_articles clock k (item # items) =
     (case make_article (clock k) item of
        Inl e \<Rightarrow> Inl e
      | Inr a \<Rightarrow>
          (case map_articles clock (if uses_clock item then Suc k else k) items of
             Inl e \<Rightarrow> Inl e
           | Inr (as, k') \<Rightarrow> Inr (a # as, k')))"

text \<open>\<^verbatim>\<open>data?.nodes?.[1]?.data\<close>\<close>

definition articlesNode :: "jsval \<Rightarrow> jsval" where
  "articlesNode data = opt_member (opt_index (opt_member data ''nodes'') 1) ''data''"

definition transformNewsData :: "(nat \<Rightarrow> nat) \<Rightarrow> nat \<Rightarrow> jsval \<Rightarrow> transform_result" where
  "transformNewsData clock k data =
     (let nodes = opt_member data ''nodes''
      in case articlesNode data of
           JArr entries \<Rightarrow>
             (case map_articles clock k (filter keep entries) of
                Inl err \<Rightarrow> Caught (err_message err)
              | Inr (as, k') \<Rightarrow>
                  Success \<lparr>success = True,
                           count = length as,
                           lastUpdated = iso_of_time (int (clock k')),
                           articles = as\<rparr>)
         | _ \<Rightarrow> Unexpected (truthy nodes) (opt_member nodes ''length''))"

section \<open>The request handler\<close>

subsection \<open>JSON bodies\<close>

text \<open>
  \<^verbatim>\<open>res.json(v)\<close> sends \<^verbatim>\<open>JSON.stringify(v)\<close>: a property whose value is \<^verbatim>\<open>undefined\<close>
  is left out, \<^verbatim>\<open>undefined\<close> in an array and a number that is not finite become
  \<^verbatim>\<open>null\<close>. \<open>to_json v\<close> is the value the client parses.
\<close>

fun to_json :: "jsval \<Rightarrow> jsval"
  and to_json_elems :: "jsval list \<Rightarrow> jsval list"
  and to_json_props :: "(string \<times> jsval) list \<Rightarrow> (string \<times> jsval) list" where
  "to_json (JNum n) = (case n of Fin q \<Rightarrow> JNum n | _ \<Rightarrow> JNull)"
| "to_json (JArr xs) = JArr (to_json_elems xs)"
| "to_json (JObj kvs) = JObj (to_json_props kvs)"
| "to_json JUndefined = JUndefined"
| "to_json JNull = JNull"
| "to_json (JBool b) = JBool b"
| "to_json (JStr s) = JStr s"
| "to_json_elems [] = []"
| "to_json_elems (x # xs) = (if x = JUndefined then JNull else to_json x) # to_json_elems xs"
| "to_json_props [] = []"
| "to_json_props (kv # kvs) =
     (if snd kv = JUndefined then to_json_props kvs
      else (fst kv, to_json (snd kv)) # to_json_props kvs)"

definition article_object :: "article \<Rightarrow> jsval" where
  "article_object a =
     JObj [(''id'', JStr (id' a)),
           (''title'', JStr (title a)),
           (''summary'', JStr (summary a)),
           (''url'', JStr (url a)),
           (''publishedAt'', (case publishedAt a of None \<Rightarrow> JNull | Some str \<Rightarrow> JStr str)),
           (''source'', JStr (source a))]"

fun result_object :: "transform_result \<Rightarrow> jsval" where
  "result_object (Unexpected h n) =
     JObj [(''error'', JStr ''Unexpected data structure''),
           (''hasNodes'', JBool h),
           (''nodeCount'', n)]"
| "result_object (Caught m) = JObj [(''error'', JStr m)]"
| "result_object (Success e) =
     JObj [(''success'', JBool (success e)),
           (''count'', JNum (Fin (of_nat (count e)))),
           (''lastUpdated'', JStr (lastUpdated e)),
           (''articles'', JArr (map article_object (articles e)))]"

subsection \<open>The upstream call\<close>

text \<open>
  Time is counted in milliseconds, and the handler's own computation takes none. A promise
  of the upstream call is described as it settles when nobody aborts the call: it fulfils
  with a value or rejects with an error, so many milliseconds after the call that made it,
  or it never settles.
\<close>

datatype 'a promise = Fulfils nat 'a | Rejects nat js_error | Never_settles

text \<open>
  The response \<^verbatim>\<open>fetch\<close> resolves to once the headers have arrived: its status, its
  \<^verbatim>\<open>content-type\<close> header, and the two reads of the body, of which the handler makes one:
  \<^verbatim>\<open>response.text()\<close> and \<^verbatim>\<open>response.json()\<close>. A read rejects when the transport fails
  while the body arrives, \<^verbatim>\<open>response.json()\<close> also with the SyntaxError of a body that
  does not parse; it never settles when the body stalls.
\<close>

record upstream_response =
  status :: nat
  content_type :: "string option"
  body_text :: "string promise"
  json :: "jsval promise"

text \<open>The promise that \<^verbatim>\<open>fetch\<close> returns.\<close>

type_synonym upstream = "upstream_response promise"

definition AbortError :: js_error where
  "AbortError = JsError ''AbortError'' ''This operation was aborted''"

text \<open>
  \<^verbatim>\<open>await fetch(url, { signal: controller.signal })\<close> while the timer set with
  \<^verbatim>\<open>setTimeout(() => controller.abort(), delay)\<close> is pending. A promise that settles
  before the timer runs resumes the handler. Otherwise the callback of the timer runs first
  (also at a tie: the event loop serves its timers before the completions of input and
  output), \<^verbatim>\<open>controller.abort()\<close> makes the promise reject with an \<^verbatim>\<open>AbortError\<close>, and the
  handler resumes in its \<^verbatim>\<open>catch\<close> block. The result: the time at which the handler
  resumes, whether the callback has run, and what \<^verbatim>\<open>await\<close> returns or throws.
\<close>

definition await_fetch ::
  "nat \<Rightarrow> upstream \<Rightarrow> nat \<times> bool \<times> (js_error + upstream_response)" where
  "await_fetch delay up =
     (case up of
        Fulfils t r \<Rightarrow> (if t < delay then (t, False, Inr r) else (delay, True, Inl AbortError))
      | Rejects t e \<Rightarrow> (if t < delay then (t, False, Inl e) else (delay, True, Inl AbortError))
      | Never_settles \<Rightarrow> (delay, True, Inl AbortError))"

record request =
  method' :: string

datatype log_line =
    Log_Blocked nat string string
  | Log_Transform_Fail jsval
  | Log_Timeout
  | Log_Critical string

text \<open>
  What one invocation does: the status and the JSON body of its answer, if it answers
  (\<^verbatim>\<open>OPTIONS\<close> is answered without a body), the headers it sets, the time of the answer, the
  URL it fetched, whether the callback of its timer ran and aborted the outbound call, and
  the lines it wrote with \<^verbatim>\<open>console.error\<close>.
\<close>

record outcome =
  res_status :: "nat option"
  res_headers :: "(string \<times> string) list"
  res_body :: "jsval option"
  answered_at :: "nat option"
  fetched :: "string option"
  aborted :: bool
  console_error :: "log_line list"

definition response_headers :: "(string \<times> string) list" where
  "response_headers =
     [(''Access-Control-Allow-Origin'', ''*''),
      (''Access-Control-Allow-Methods'', ''GET, OPTIONS''),
      (''Access-Control-Allow-Headers'', ''Content-Type''),
      (''Cache-Control'', ''s-maxage=300'')]"

fun starts_with :: "string \<Rightarrow> string \<Rightarrow> bool" where
  "starts_with s [] = True"
| "starts_with [] (c # cs) = False"
| "starts_with (x # xs) (c # cs) = (x = c \<and> starts_with xs cs)"

text \<open>\<^verbatim>\<open>s.includes(t)\<close>\<close>

fun includes' :: "string \<Rightarrow> string \<Rightarrow> bool" where
  "includes' [] t = (t = [])"
| "includes' (x # xs) t = (starts_with (x # xs) t \<or> includes' xs t)"

text \<open>\<^verbatim>\<open>response.ok\<close>\<close>

definition ok :: "upstream_response \<Rightarrow> bool" where
  "ok r = (200 \<le> status r \<and> status r \<le> 299)"

text \<open>\<^verbatim>\<open>Object.keys(v)\<close> throws on \<^verbatim>\<open>undefined\<close> and \<^verbatim>\<open>null\<close>, which have no object to
  list the keys of. The list itself, which only a log line shows, is not computed.\<close>

definition Object_keys :: "jsval \<Rightarrow> js_error + unit" where
  "Object_keys v =
     (if nullish v then Inl (TypeError ''Cannot convert undefined or null to object'')
      else Inr ())"

definition upstream_url :: "nat \<Rightarrow> string" where
  "upstream_url ts =
     ''https://stockanalysis.com/news/__data.json?x-sveltekit-invalidated='' @
     digits10 ts @ ''_'' @ digits10 ts"

text \<open>
  The \<^verbatim>\<open>try\<close> block from the resolved response on, as the promise of its completion: it
  fulfils with the status, the body and the log lines of the answer it sends, it rejects
  with the exception it throws, or it never settles, each counted from the moment the
  response was received. \<^verbatim>\<open>clearTimeout\<close> has cancelled the timer before, so the read of
  the body is awaited without a deadline. The clock was read once before, for the URL.
\<close>

definition on_response ::
  "(nat \<Rightarrow> nat) \<Rightarrow> upstream_response \<Rightarrow> (nat \<times> jsval \<times> log_line list) promise" where
  "on_response clock r =
     (let contentType = (case content_type r of None \<Rightarrow> [] | Some ct \<Rightarrow> ct)
      in if \<not> ok r \<or> \<not> includes' contentType ''application/json''
         then (case body_text r of
                 Fulfils t body \<Rightarrow>
                   Fulfils t
                     (502,
                      JObj [(''error'', JStr ''Source blocked request''),
                            (''hint'', JStr ''Check Vercel logs for Cloudflare/challenge details'')],
                      [Log_Blocked (status r) contentType (take 200 (take 500 body))])
               | Rejects t e \<Rightarrow> Rejects t e
               | Never_settles \<Rightarrow> Never_settles)
         else (case json r of
                 Fulfils t rawData \<Rightarrow>
                   (let cleaned = transformNewsData clock 1 rawData
                    in if truthy (error_of cleaned)
                       then (case Object_keys rawData of
                               Inl e \<Rightarrow> Rejects t e
                             | Inr keys \<Rightarrow>
                                 Fulfils t
                                   (500,
                                    JObj [(''error'', JStr ''Data structure changed''),
                                          (''hint'', JStr ''Check transformation logic'')],
                                    [Log_Transform_Fail (error_of cleaned)]))
                       else Fulfils t (200, result_object cleaned, []))
               | Rejects t e \<Rightarrow> Rejects t e
               | Never_settles \<Rightarrow> Never_settles))"

text \<open>The \<^verbatim>\<open>catch\<close> block; \<open>node_env\<close> is \<^verbatim>\<open>process.env.NODE_ENV\<close>.\<close>

definition on_error :: "string option \<Rightarrow> js_error \<Rightarrow> nat \<times> jsval \<times> log_line list" where
  "on_error node_env error =
     (if err_name error = ''AbortError''
      then (504, JObj [(''error'', JStr ''Upstream timeout'')], [Log_Timeout])
      else (500,
            JObj [(''error'', JStr ''Service unavailable''),
                  (''debug'', (if node_env = Some ''development''
                               then JStr (err_message error) else JUndefined))],
            [Log_Critical (err_message error)]))"

text \<open>
  The handler. A request that is neither \<^verbatim>\<open>OPTIONS\<close> nor \<^verbatim>\<open>GET\<close> is answered at once. For
  \<^verbatim>\<open>GET\<close> the timer of 8000 ms is set and \<^verbatim>\<open>fetch\<close> is called; the handler answers when
  the \<^verbatim>\<open>try\<close> block has sent its answer or the \<^verbatim>\<open>catch\<close> block has, and it does not
  answer while a promise it awaits stays pending.
\<close>

definition handler ::
  "(nat \<Rightarrow> nat) \<Rightarrow> string option \<Rightarrow> upstream \<Rightarrow> request \<Rightarrow> outcome" where
  "handler clock node_env up req =
     (if method' req = ''OPTIONS''
      then \<lparr>res_status = Some 200, res_headers = response_headers, res_body = None,
            answered_at = Some 0, fetched = None, aborted = False, console_error = []\<rparr>
      else if method' req \<noteq> ''GET''
      then \<lparr>res_status = Some 405, res_headers = response_headers,
            res_body = Some (to_json (JObj [(''error'', JStr ''Only GET allowed'')])),
            answered_at = Some 0, fetched = None, aborted = False, console_error = []\<rparr>
      else
        (let (resumed, abort, settled) = await_fetch 8000 up;
             rest = (case settled of
                       Inl e \<Rightarrow> Rejects 0 e
                     | Inr r \<Rightarrow> on_response clock r);
             sent = (case rest of
                       Fulfils t answer \<Rightarrow> Some (t, answer)
                     | Rejects t e \<Rightarrow> Some (t, on_error node_env e)
                     | Never_settles \<Rightarrow> None)
         in case sent of
              None \<Rightarrow>
                \<lparr>res_status = None, res_headers = response_headers, res_body = None,
                 answered_at = None, fetched = Some (upstream_url (clock 0)),
                 aborted = abort, console_error = []\<rparr>
            | Some (t, st, body, lines) \<Rightarrow>
                \<lparr>res_status = Some st, res_headers = response_headers,
                 res_body = Some (to_json body), answered_at = Some (resumed + t),
                 fetched = Some (upstream_url (clock 0)),
                 aborted = abort, console_error = lines\<rparr>))"

section \<open>The earlier normalizer \<^verbatim>\<open>transformSvelteKitData\<close>\<close>

text \<open>
  The schema variant with an image: it copies \<^verbatim>\<open>id\<close>, \<^verbatim>\<open>title\<close>, \<^verbatim>\<open>summary\<close> and the
  date as they come, of whatever type, and filters after mapping.
\<close>

record sk_article =
  sk_id :: jsval
  sk_title :: jsval
  sk_summary :: jsval
  sk_url :: string
  sk_source :: string
  sk_publishedAt :: jsval
  sk_imageUrl :: "string option"

text \<open>
  The three object shapes it returns: \<^verbatim>\<open>{ raw_nodes }\<close>,
  \<^verbatim>\<open>{ error: 'Data parsing failed', raw_sample }\<close> (the sample, a prefix of the payload's
  JSON text, is not kept) and \<^verbatim>\<open>{ lastUpdated, articles }\<close>.
\<close>

datatype sk_result =
    Raw_nodes jsval
  | Parsing_failed
  | News string "sk_article list"

text \<open>\<^verbatim>\<open>a || b\<close> for an operand \<open>b\<close> that has no effect.\<close>

definition or_else :: "jsval \<Rightarrow> jsval \<Rightarrow> jsval" where
  "or_else a b = (if truthy a then a else b)"

text \<open>\<^verbatim>\<open>item?.url?.split('/').pop()\<close>\<close>

definition url_tail :: "jsval \<Rightarrow> js_error + jsval" where
  "url_tail item =
     (let u = opt_member item ''url''
      in if nullish u then Inr JUndefined
         else (case u of
                 JStr us \<Rightarrow> Inr (pop (split (CHR ''/'') us))
               | _ \<Rightarrow> Inl (not_callable u ''item?.url'' ''split'')))"

text \<open>Whether the callback calls \<^verbatim>\<open>Math.random()\<close>: neither \<^verbatim>\<open>item?.id\<close> nor the last
  segment of the URL is truthy.\<close>

definition uses_random :: "jsval \<Rightarrow> bool" where
  "uses_random item =
     (\<not> truthy (opt_member item ''id'') \<and>
      (case url_tail item of Inl e \<Rightarrow> False | Inr tail \<Rightarrow> \<not> truthy tail))"

text \<open>\<^verbatim>\<open>v ? `https://stockanalysis.com${v}` : other\<close>\<close>

definition prefixed :: "jsval \<Rightarrow> js_error + string option" where
  "prefixed v =
     (if truthy v
      then (case ToString v of
              Inl e \<Rightarrow> Inl e
            | Inr str \<Rightarrow> Inr (Some (''https://stockanalysis.com'' @ str)))
      else Inr None)"

text \<open>The callback of \<^verbatim>\<open>map\<close>; \<open>rnd\<close> is the string
  \<^verbatim>\<open>Math.random().toString(36).slice(2)\<close> yields if the callback evaluates it.\<close>

definition sk_make_article :: "string \<Rightarrow> jsval \<Rightarrow> js_error + sk_article" where
  "sk_make_article rnd item =
     (case (if truthy (opt_member item ''id'') then Inr (opt_member item ''id'')
            else (case url_tail item of
                    Inl e \<Rightarrow> Inl e
                  | Inr tail \<Rightarrow> Inr (or_else tail (JStr rnd)))) of
        Inl e \<Rightarrow> Inl e
      | Inr ident \<Rightarrow>
          (case prefixed (opt_member item ''url'') of
             Inl e \<Rightarrow> Inl e
           | Inr u \<Rightarrow>
               (case prefixed (opt_member item ''image'') of
                  Inl e \<Rightarrow> Inl e
                | Inr img \<Rightarrow>
                    Inr \<lparr>sk_id = ident,
                         sk_title = or_else (opt_member item ''title'') (JStr []),
                         sk_summary =
                           or_else (or_else (opt_member item ''summary'')
                                            (opt_member item ''description'')) (JStr []),
                         sk_url = (case u of None \<Rightarrow> [] | Some str \<Rightarrow> str),
                         sk_source = ''StockAnalysis'',
                         sk_publishedAt =
                           or_else (or_else (opt_member item ''date'')
                                            (opt_member item ''time'')) JNull,
                         sk_imageUrl = img\<rparr>)))"

text \<open>\<^verbatim>\<open>Array.prototype.map\<close> with that callback: \<open>random\<close> is the sequence of strings the
  successive evaluations of the random expression yield, \<open>k\<close> counts them.\<close>

fun sk_map_articles :: "(nat \<Rightarrow> string) \<Rightarrow> nat \<Rightarrow> jsval list \<Rightarrow> js_error + sk_article list" where
  "sk_map_articles random k [] = Inr []"
| "sk_map_articles random k (item # items) =
     (case sk_make_article (random k) item of
        Inl e \<Rightarrow> Inl e
      | Inr a \<Rightarrow>
          (case sk_map_articles random (if uses_random item then Suc k else k) items of
             Inl e \<Rightarrow> Inl e
           | Inr as \<Rightarrow> Inr (a # as)))"

text \<open>The filter \<^verbatim>\<open>article => article.title && article.url\<close>.\<close>

definition sk_keep :: "sk_article \<Rightarrow> bool" where
  "sk_keep a = (truthy (sk_title a) \<and> sk_url a \<noteq> [])"

text \<open>\<^verbatim>\<open>data.nodes?.map(n => n?.type || 'unknown')\<close>\<close>

definition raw_nodes :: "jsval \<Rightarrow> js_error + jsval" where
  "raw_nodes data =
     (case get_member data ''nodes'' of
        Inl e \<Rightarrow> Inl e
      | Inr nodes \<Rightarrow>
          (if nullish nodes then Inr JUndefined
           else (case nodes of
                   JArr ns \<Rightarrow>
                     Inr (JArr (map (\<lambda>n. or_else (opt_member n ''type'') (JStr ''unknown'')) ns))
                 | _ \<Rightarrow> Inl (not_callable nodes ''data.nodes'' ''map''))))"

text \<open>The body of the \<^verbatim>\<open>try\<close> block.\<close>

definition normalize_news ::
  "nat \<Rightarrow> (nat \<Rightarrow> string) \<Rightarrow> nat \<Rightarrow> jsval \<Rightarrow> js_error + sk_result" where
  "normalize_news now random k data =
     (case articlesNode data of
        JArr entries \<Rightarrow>
          (case sk_map_articles random k entries of
             Inl e \<Rightarrow> Inl e
           | Inr as \<Rightarrow> Inr (News (iso_of_time (int now)) (filter sk_keep as)))
      | _ \<Rightarrow> (case raw_nodes data of Inl e \<Rightarrow> Inl e | Inr ns \<Rightarrow> Inr (Raw_nodes ns)))"

text \<open>
  The \<^verbatim>\<open>catch\<close> block evaluates \<^verbatim>\<open>JSON.stringify(data).substring(0, 200)\<close>;
  \<^verbatim>\<open>JSON.stringify\<close> returns \<^verbatim>\<open>undefined\<close> for \<^verbatim>\<open>undefined\<close> and a string for every other
  value parsed from JSON, so the function itself throws on \<^verbatim>\<open>undefined\<close> only.
\<close>

definition transformSvelteKitData ::
  "nat \<Rightarrow> (nat \<Rightarrow> string) \<Rightarrow> nat \<Rightarrow> jsval \<Rightarrow> js_error + sk_result" where
  "transformSvelteKitData now random k data =
     (case normalize_news now random k data of
        Inl transformErr \<Rightarrow>
          (if data = JUndefined then Inl (not_callable JUndefined [] ''substring'')
           else Inr Parsing_failed)
      | Inr result \<Rightarrow> Inr result)"

definition sk_article_object :: "sk_article \<Rightarrow> jsval" where
  "sk_article_object a =
     JObj [(''id'', sk_id a),
           (''title'', sk_title a),
           (''summary'', sk_summary a),
           (''url'', JStr (sk_url a)),
           (''source'', JStr (sk_source a)),
           (''publishedAt'', sk_publishedAt a),
           (''imageUrl'', (case sk_imageUrl a of None \<Rightarrow> JNull | Some str \<Rightarrow> JStr str))]"

section \<open>Sample inputs\<close>

definition GET :: request where
  "GET = \<lparr>method' = ''GET''\<rparr>"

definition fixed_clock :: "nat \<Rightarrow> nat" where
  "fixed_clock k = 1770000000000 + k"

definition later_clock :: "nat \<Rightarrow> nat" where
  "later_clock k = 1770000060000 + k"

text \<open>A payload of the live structure, \<^verbatim>\<open>data.nodes[1].data\<close> holding the entries.\<close>

definition payload_with :: "jsval list \<Rightarrow> jsval" where
  "payload_with entries =
     JObj [(''type'', JStr ''data''),
           (''nodes'', JArr [JNull, JObj [(''type'', JStr ''data''), (''data'', JArr entries)]])]"

text \<open>A 200 response labelled as JSON whose body arrives after 40 ms and parses to \<open>v\<close>
  (the text of the body is read on the blocked path only).\<close>

definition json_response :: "jsval \<Rightarrow> upstream_response" where
  "json_response v =
     \<lparr>status = 200, content_type = Some ''application/json; charset=utf-8'',
      body_text = Fulfils 40 [], json = Fulfils 40 v\<rparr>"






definition titled_entry :: jsval where
  "titled_entry =
     JObj [(''t'', JStr ''Title''), (''u'', JStr ''/news/abc-123''),
           (''d'', JNum (Fin 1700000000)), (''s'', JStr ''Summary'')]"

definition plain_entry :: jsval where
  "plain_entry = JObj [(''t'', JStr ''A''), (''u'', JStr ''/news/a'')]"

definition plain_article :: article where
  "plain_article =
     \<lparr>id' = ''a'', title = ''A'', summary = [], url = ''https://stockanalysis.com/news/a'',
      publishedAt = None, source = ''StockAnalysis''\<rparr>"

definition blank_entry :: jsval where
  "blank_entry = JObj [(''t'', JStr '' ''), (''u'', JStr ''/news/x'')]"

definition mistyped_entry :: jsval where
  "mistyped_entry = JObj [(''t'', JStr ''B''), (''u'', JNum (Fin 5))]"

definition far_future_entry :: jsval where
  "far_future_entry =
     JObj [(''t'', JStr ''C''), (''u'', JStr ''/news/c''), (''d'', JNum (Fin 10000000000000000))]"

definition trailing_slash_entry :: jsval where
  "trailing_slash_entry = JObj [(''t'', JStr ''D''), (''u'', JStr ''/news/'')]"

definition pictured_entry :: jsval where
  "pictured_entry =
     JObj [(''t'', JStr ''E''), (''u'', JStr ''/news/e''), (''image'', JStr ''/img/e.png'')]"

definition sk_entry :: jsval where
  "sk_entry =
     JObj [(''title'', JStr ''F''), (''url'', JStr ''/news/f''), (''image'', JStr ''/img/f.png'')]"

text \<open>Entries of the earlier schema: one without an image, and one whose URL path is not a
  string, which also has the title and the URL path of the later schema.\<close>

definition plain_sk_entry :: jsval where
  "plain_sk_entry = JObj [(''title'', JStr ''G''), (''url'', JStr ''/news/g'')]"

definition mistyped_sk_entry :: jsval where
  "mistyped_sk_entry = JObj [(''title'', JStr ''H''), (''url'', JNum (Fin 5))]"

text \<open>An entry carrying the fields of both schema variants.\<close>

definition dual_entry :: jsval where
  "dual_entry =
     JObj [(''t'', JStr ''A''), (''u'', JStr ''/news/a''),
           (''title'', JStr ''A''), (''url'', JStr ''/news/a'')]"

definition fixed_random :: "nat \<Rightarrow> string" where
  "fixed_random k = ''k3j9x'' @ digits10 k"

definition other_random :: "nat \<Rightarrow> string" where
  "other_random k = ''q7w1z'' @ digits10 k"

section \<open>Projections used in the statements\<close>

text \<open>The articles of a result, none for a failure.\<close>

fun articles_of :: "transform_result \<Rightarrow> article list" where
  "articles_of (Success e) = articles e"
| "articles_of r = []"

fun sk_articles_of :: "js_error + sk_result \<Rightarrow> sk_article list" where
  "sk_articles_of (Inr (News lu as)) = as"
| "sk_articles_of r = []"

text \<open>When a promise settles, and whether it does so within \<open>d\<close> ms.\<close>

fun settle_time :: "'a promise \<Rightarrow> nat option" where
  "settle_time (Fulfils t v) = Some t"
| "settle_time (Rejects t e) = Some t"
| "settle_time Never_settles = None"

definition settled_before :: "nat \<Rightarrow> 'a promise \<Rightarrow> bool" where
  "settled_before d p = (case settle_time p of None \<Rightarrow> False | Some t \<Rightarrow> t < d)"


text \<open>A property of the JSON body of a response, \<^verbatim>\<open>undefined\<close> when there is no body.\<close>

definition body_field :: "outcome \<Rightarrow> string \<Rightarrow> jsval" where
  "body_field out k = (case res_body out of None \<Rightarrow> JUndefined | Some b \<Rightarrow> get_field b k)"

text \<open>An article with its id blanked, to compare articles up to their ids.\<close>

definition without_id :: "article \<Rightarrow> article" where
  "without_id a = a\<lparr>id' := []\<rparr>"

definition sk_without_id :: "sk_article \<Rightarrow> sk_article" where
  "sk_without_id a = a\<lparr>sk_id := JNull\<rparr>"

text \<open>No kept entry of the payload takes the id fallback of \<^verbatim>\<open>transformNewsData\<close> (the
  clock), respectively no entry takes that of \<^verbatim>\<open>transformSvelteKitData\<close> (a random
  number).\<close>

definition fallback_free :: "jsval \<Rightarrow> bool" where
  "fallback_free data =
     (case articlesNode data of
        JArr entries \<Rightarrow> list_all (\<lambda>item. keep item \<longrightarrow> \<not> uses_clock item) entries
      | _ \<Rightarrow> True)"

definition random_free :: "jsval \<Rightarrow> bool" where
  "random_free data =
     (case articlesNode data of
        JArr entries \<Rightarrow> list_all (\<lambda>item. \<not> uses_random item) entries
      | _ \<Rightarrow> True)"

text \<open>The property names of an object, in order.\<close>

fun property_names :: "jsval \<Rightarrow> string list" where
  "property_names (JObj kvs) = map fst kvs"
| "property_names v = []"

section \<open>Facts about the normalizer\<close>

lemma split_not_Nil: "split c s \<noteq> []"
  by (induction s) (auto split: list.splits)

lemma articlesNode_payload_with: "articlesNode (payload_with entries) = JArr entries"
  by (simp add: articlesNode_def payload_with_def opt_member_def nullish_def own_property_def)

text \<open>What a successful call of the callback says about its entry.\<close>

lemma make_article_Inr:
  assumes "make_article now item = Inr a"
  shows "\<exists>us ts ss.
           get_field item ''u'' = JStr us \<and> get_field item ''t'' = JStr ts \<and>
           (if truthy (get_field item ''s'') then get_field item ''s'' else JStr []) = JStr ss \<and>
           published_at (get_field item ''d'') = Inr (publishedAt a) \<and>
           a = \<lparr>id' = (if last (split (CHR ''/'') us) \<noteq> [] then last (split (CHR ''/'') us)
                       else digits10 now),
                 title = trim ts, summary = trim ss,
                 url = ''https://stockanalysis.com'' @ us,
                 publishedAt = publishedAt a, source = ''StockAnalysis''\<rparr>"
proof -
  have nn: "\<not> nullish item"
    using assms by (auto simp add: make_article_def get_member_def)
  obtain us where u: "get_field item ''u'' = JStr us"
    using assms nn
    by (cases "get_field item ''u''") (simp_all add: make_article_def get_member_def)
  obtain ts where t: "get_field item ''t'' = JStr ts"
    using assms nn u
    by (cases "get_field item ''t''") (simp_all add: make_article_def get_member_def Let_def)
  obtain ss where s:
    "(if truthy (get_field item ''s'') then get_field item ''s'' else JStr []) = JStr ss"
    using assms nn u t
    by (cases "if truthy (get_field item ''s'') then get_field item ''s'' else JStr []")
       (simp_all add: make_article_def get_member_def Let_def)
  obtain p where p: "published_at (get_field item ''d'') = Inr p"
    using assms nn u t s
    by (cases "published_at (get_field item ''d'')")
       (simp_all add: make_article_def get_member_def Let_def)
  have "a = \<lparr>id' = (if last (split (CHR ''/'') us) \<noteq> [] then last (split (CHR ''/'') us)
                    else digits10 now),
              title = trim ts, summary = trim ss,
              url = ''https://stockanalysis.com'' @ us,
              publishedAt = p, source = ''StockAnalysis''\<rparr>"
    using assms nn u t s p
    by (auto simp add: make_article_def get_member_def Let_def pop_def split_not_Nil)
  then show ?thesis using u t s p by auto
qed

lemma map_articles_all2:
  "map_articles clock k xs = Inr (as, k') \<Longrightarrow>
   list_all2 (\<lambda>item a. \<exists>now. make_article now item = Inr a) xs as"
proof (induction xs arbitrary: k as)
  case Nil
  then show ?case by simp
next
  case (Cons x xs)
  then show ?case
    by (auto split: sum.splits prod.splits)
qed

text \<open>One throwing entry makes the loop throw, whatever stands before or after it.\<close>

lemma map_articles_throws:
  "item \<in> set xs \<Longrightarrow> \<forall>now. isl (make_article now item) \<Longrightarrow> isl (map_articles clock k xs)"
proof (induction xs arbitrary: k)
  case Nil
  then show ?case by simp
next
  case (Cons x xs)
  show ?case
  proof (cases "make_article (clock k) x")
    case (Inl e)
    then show ?thesis by simp
  next
    case (Inr a)
    with Cons.prems have "item \<in> set xs"
      by (metis isl_def set_ConsD sum.disc(2))
    then have "isl (map_articles clock (if uses_clock x then Suc k else k) xs)"
      using Cons.IH Cons.prems(2) by blast
    then show ?thesis using Inr by (auto simp add: isl_def)
  qed
qed

lemma transformNewsData_array:
  "articlesNode data = JArr entries \<Longrightarrow>
   transformNewsData clock k data =
     (case map_articles clock k (filter keep entries) of
        Inl err \<Rightarrow> Caught (err_message err)
      | Inr (as, k') \<Rightarrow>
          Success \<lparr>success = True, count = length as,
                   lastUpdated = iso_of_time (int (clock k')), articles = as\<rparr>)"
  by (simp add: transformNewsData_def)

lemma transformNewsData_Success:
  assumes "articlesNode data = JArr entries" "transformNewsData clock k data = Success e"
  shows "\<exists>k'. map_articles clock k (filter keep entries) = Inr (articles e, k')"
  using assms by (auto simp add: transformNewsData_array split: sum.splits prod.splits)

lemma keep_fields:
  "keep item \<Longrightarrow> truthy (get_field item ''t'') \<and> truthy (get_field item ''u'')"
  by (simp add: keep_def)

lemma list_all2_filter:
  assumes "list_all2 P (filter Q xs) ys"
  shows "list_all2 (\<lambda>x y. Q x \<and> P x y) (filter Q xs) ys"
proof -
  have "\<forall>x \<in> set (filter Q xs). Q x" by simp
  then have "\<forall>i < length (filter Q xs). Q (filter Q xs ! i)"
    using nth_mem by blast
  with assms show ?thesis
    by (simp add: list_all2_conv_all_nth)
qed

text \<open>The kept entries and the emitted articles correspond one to one, in order.\<close>

lemma kept_entries_articles:
  assumes "articlesNode data = JArr entries" "transformNewsData clock k data = Success e"
  shows "list_all2 (\<lambda>item a. keep item \<and> (\<exists>now. make_article now item = Inr a))
           (filter keep entries) (articles e)"
proof -
  obtain k' where "map_articles clock k (filter keep entries) = Inr (articles e, k')"
    using transformNewsData_Success [OF assms] by blast
  then show ?thesis
    by (intro list_all2_filter map_articles_all2)
qed

text \<open>Evaluating the normalizer on the sample entries.\<close>

lemma published_at_falsy: "\<not> truthy d \<Longrightarrow> published_at d = Inr None"
  by (simp add: published_at_def)

lemmas eval_normalizer =
  transformNewsData_def articlesNode_payload_with keep_def own_property_def make_article_def
  get_member_def nullish_def uses_clock_def pop_def trim_def is_space_def published_at_falsy
  Let_def

lemmas eval_sk =
  transformSvelteKitData_def normalize_news_def articlesNode_payload_with sk_make_article_def
  url_tail_def uses_random_def prefixed_def or_else_def opt_member_def nullish_def
  own_property_def sk_keep_def pop_def Let_def

section \<open>Facts about the handler\<close>

text \<open>A \<^verbatim>\<open>fetch\<close> that has not settled when the timer runs.\<close>

lemma handler_timeout:
  assumes "method' req = ''GET''" "\<not> settled_before 8000 up"
  shows "handler clock node_env up req =
           \<lparr>res_status = Some 504, res_headers = response_headers,
            res_body = Some (JObj [(''error'', JStr ''Upstream timeout'')]),
            answered_at = Some 8000, fetched = Some (upstream_url (clock 0)),
            aborted = True, console_error = [Log_Timeout]\<rparr>"
  using assms
  by (cases up)
     (simp_all add: handler_def await_fetch_def settled_before_def on_error_def AbortError_def)

text \<open>A \<^verbatim>\<open>fetch\<close> that rejects before the timer runs.\<close>

lemma handler_rejected:
  assumes "method' req = ''GET''" "t < 8000"
  shows "handler clock node_env (Rejects t e) req =
           (case on_error node_env e of
              (st, body, lines) \<Rightarrow>
                \<lparr>res_status = Some st, res_headers = response_headers,
                 res_body = Some (to_json body), answered_at = Some t,
                 fetched = Some (upstream_url (clock 0)),
                 aborted = False, console_error = lines\<rparr>)"
  using assms by (simp add: handler_def await_fetch_def split: prod.splits)

text \<open>A \<^verbatim>\<open>fetch\<close> that resolves before the timer runs.\<close>

lemma handler_resolved:
  assumes "method' req = ''GET''" "t < 8000"
  shows "handler clock node_env (Fulfils t r) req =
           (case on_response clock r of
              Fulfils t' answer \<Rightarrow>
                (case answer of
                   (st, body, lines) \<Rightarrow>
                     \<lparr>res_status = Some st, res_headers = response_headers,
                      res_body = Some (to_json body), answered_at = Some (t + t'),
                      fetched = Some (upstream_url (clock 0)),
                      aborted = False, console_error = lines\<rparr>)
            | Rejects t' e \<Rightarrow>
                (case on_error node_env e of
                   (st, body, lines) \<Rightarrow>
                     \<lparr>res_status = Some st, res_headers = response_headers,
                      res_body = Some (to_json body), answered_at = Some (t + t'),
                      fetched = Some (upstream_url (clock 0)),
                      aborted = False, console_error = lines\<rparr>)
            | Never_settles \<Rightarrow>
                \<lparr>res_status = None, res_headers = response_headers, res_body = None,
                 answered_at = None, fetched = Some (upstream_url (clock 0)),
                 aborted = False, console_error = []\<rparr>)"
  using assms
  by (simp add: handler_def await_fetch_def split: promise.splits prod.splits)

lemma handler_not_GET:
  assumes "method' req \<noteq> ''GET''"
  shows "handler c1 node_env up req = handler c2 node_env up req"
  using assms by (simp add: handler_def)

text \<open>The branch of a response that is not 2xx or not labelled as JSON.\<close>

lemma on_response_blocked:
  assumes "\<not> ok r \<or>
           \<not> includes' (case content_type r of None \<Rightarrow> [] | Some ct \<Rightarrow> ct) ''application/json''"
  shows "on_response clock r =
           (case body_text r of
              Fulfils t body \<Rightarrow>
                Fulfils t
                  (502,
                   JObj [(''error'', JStr ''Source blocked request''),
                         (''hint'', JStr ''Check Vercel logs for Cloudflare/challenge details'')],
                   [Log_Blocked (status r) (case content_type r of None \<Rightarrow> [] | Some ct \<Rightarrow> ct)
                      (take 200 (take 500 body))])
            | Rejects t e \<Rightarrow> Rejects t e
            | Never_settles \<Rightarrow> Never_settles)"
  using assms by (auto simp add: on_response_def Let_def)

text \<open>The branch of a 2xx response labelled as JSON, by what the read of the body does.\<close>

lemma on_response_parsed:
  assumes "ok r"
      and "includes' (case content_type r of None \<Rightarrow> [] | Some ct \<Rightarrow> ct) ''application/json''"
      and "json r = Fulfils t data"
  shows "on_response clock r =
           (if truthy (error_of (transformNewsData clock 1 data))
            then (if nullish data
                  then Rejects t (TypeError ''Cannot convert undefined or null to object'')
                  else Fulfils t
                         (500,
                          JObj [(''error'', JStr ''Data structure changed''),
                                (''hint'', JStr ''Check transformation logic'')],
                          [Log_Transform_Fail (error_of (transformNewsData clock 1 data))]))
            else Fulfils t (200, result_object (transformNewsData clock 1 data), []))"
  using assms by (simp add: on_response_def Let_def Object_keys_def)

lemma on_response_unparsed:
  assumes "ok r"
      and "includes' (case content_type r of None \<Rightarrow> [] | Some ct \<Rightarrow> ct) ''application/json''"
      and "\<forall>t data. json r \<noteq> Fulfils t data"
  shows "on_response clock r =
           (case json r of
              Fulfils t data \<Rightarrow> Never_settles
            | Rejects t e \<Rightarrow> Rejects t e
            | Never_settles \<Rightarrow> Never_settles)"
  using assms by (cases "json r") (simp_all add: on_response_def Let_def)

text \<open>The handler on a 2xx response labelled as JSON whose body arrives and parses.\<close>

lemma json_path:
  assumes "method' req = ''GET''" "t < 8000" "ok r"
      and "includes' (case content_type r of None \<Rightarrow> [] | Some ct \<Rightarrow> ct) ''application/json''"
      and "json r = Fulfils t' data"
  shows "handler clock node_env (Fulfils t r) req =
     (let cleaned = transformNewsData clock 1 data;
          (st, body, lines) =
            (if truthy (error_of cleaned)
             then (case Object_keys data of
                     Inl e \<Rightarrow> on_error node_env e
                   | Inr keys \<Rightarrow>
                       (500, JObj [(''error'', JStr ''Data structure changed''),
                                   (''hint'', JStr ''Check transformation logic'')],
                        [Log_Transform_Fail (error_of cleaned)]))
             else (200, result_object cleaned, []))
      in \<lparr>res_status = Some st, res_headers = response_headers, res_body = Some (to_json body),
           answered_at = Some (t + t'), fetched = Some (upstream_url (clock 0)),
           aborted = False, console_error = lines\<rparr>)"
  unfolding handler_resolved [OF assms(1,2)] on_response_parsed [OF assms(3-5)]
  by (simp add: Let_def Object_keys_def split: prod.splits)

lemma to_json_article_objects: "to_json_elems (map article_object as) = map article_object as"
  by (induction as) (simp_all add: article_object_def split: option.splits)

text \<open>The articles of the response body: those of the normalizer's result when it reports no
  error, none otherwise.\<close>

lemma handler_articles:
  assumes "method' req = ''GET''" "t < 8000" "ok r"
      and "includes' (case content_type r of None \<Rightarrow> [] | Some ct \<Rightarrow> ct) ''application/json''"
      and "json r = Fulfils t' data"
  shows "body_field (handler clock node_env (Fulfils t r) req) ''articles'' =
           (if error_of (transformNewsData clock 1 data) = JUndefined
            then JArr (map article_object (articles_of (transformNewsData clock 1 data)))
            else JUndefined)"
  unfolding json_path [OF assms]
  by (cases "transformNewsData clock 1 data")
     (simp_all add: Let_def body_field_def Object_keys_def on_error_def own_property_def
        to_json_article_objects)

lemma handler_status:
  assumes "method' req = ''GET''" "t < 8000" "ok r"
      and "includes' (case content_type r of None \<Rightarrow> [] | Some ct \<Rightarrow> ct) ''application/json''"
      and "json r = Fulfils t' data"
  shows "res_status (handler clock node_env (Fulfils t r) req) =
           Some (if truthy (error_of (transformNewsData clock 1 data)) then 500 else 200)"
  unfolding json_path [OF assms]
  by (simp add: Let_def Object_keys_def on_error_def TypeError_def)


lemma json_response_simps:
  "ok (json_response v)"
  "includes' (case content_type (json_response v) of None \<Rightarrow> [] | Some ct \<Rightarrow> ct) ''application/json''"
  "json (json_response v) = Fulfils 40 v"
  by (simp_all add: json_response_def ok_def)



section \<open>Emitted articles: title and URL\<close>

text \<open>
  Claim C1 says that every emitted Article has a title and a url that are non-empty after
  trimming, entries failing this being dropped. The filter of \<^verbatim>\<open>transformNewsData\<close> tests
  the raw fields for truthiness before the title is trimmed: an entry whose title is white
  space only is kept and emitted with the empty title.
\<close>

theorem blank_title_counterexample:
  "keep blank_entry
   \<and> transformNewsData fixed_clock 0 (payload_with [blank_entry]) =
       Success \<lparr>success = True, count = 1, lastUpdated = iso_of_time (int (fixed_clock 0)),
         articles = [\<lparr>id' = ''x'', title = [], summary = [],
                      url = ''https://stockanalysis.com/news/x'',
                      publishedAt = None, source = ''StockAnalysis''\<rparr>]\<rparr>"
  by (simp add: eval_normalizer blank_entry_def)

text \<open>
  C1 as amended: for a payload whose article node is an array, the emitted articles are,
  in order, those of the entries that pass the filter; each has the trimmed copy of a
  non-empty raw title string as its title and the origin followed by a non-empty raw URL
  path as its url, so the url is never empty. An entry whose title or URL path is absent,
  null or the empty string is dropped. The earlier normalizer \<^verbatim>\<open>transformSvelteKitData\<close>
  emits only articles with a truthy title and a non-empty url.
\<close>

theorem emitted_title_and_url:
  assumes "articlesNode data = JArr entries"
      and "transformNewsData clock k data = Success e"
      and "transformSvelteKitData now random j data' = Inr (News lu as)"
  shows "list_all2 (\<lambda>item a. \<exists>ts us. get_field item ''t'' = JStr ts \<and> ts \<noteq> [] \<and>
                       get_field item ''u'' = JStr us \<and> us \<noteq> [] \<and>
                       title a = trim ts \<and> url a = ''https://stockanalysis.com'' @ us \<and>
                       url a \<noteq> [])
           (filter keep entries) (articles e)
       \<and> (\<forall>item \<in> set entries.
             get_field item ''t'' \<in> {JUndefined, JNull, JStr []} \<or>
             get_field item ''u'' \<in> {JUndefined, JNull, JStr []} \<longrightarrow> \<not> keep item)
       \<and> (\<forall>a \<in> set as. truthy (sk_title a) \<and> sk_url a \<noteq> [])"
proof -
  have "list_all2 (\<lambda>item a. \<exists>ts us. get_field item ''t'' = JStr ts \<and> ts \<noteq> [] \<and>
                       get_field item ''u'' = JStr us \<and> us \<noteq> [] \<and>
                       title a = trim ts \<and> url a = ''https://stockanalysis.com'' @ us \<and>
                       url a \<noteq> [])
           (filter keep entries) (articles e)"
    using kept_entries_articles [OF assms(1,2)]
  proof (rule list_all2_mono)
    fix item a
    assume "keep item \<and> (\<exists>now. make_article now item = Inr a)"
    then obtain now where k: "keep item" and a: "make_article now item = Inr a" by blast
    from make_article_Inr [OF a] obtain us ts where
      "get_field item ''u'' = JStr us" "get_field item ''t'' = JStr ts"
      "title a = trim ts" "url a = ''https://stockanalysis.com'' @ us"
      by (metis article.select_convs(2) article.select_convs(4))
    moreover from this keep_fields [OF k] have "ts \<noteq> []" "us \<noteq> []" by auto
    ultimately show "\<exists>ts us. get_field item ''t'' = JStr ts \<and> ts \<noteq> [] \<and>
                       get_field item ''u'' = JStr us \<and> us \<noteq> [] \<and>
                       title a = trim ts \<and> url a = ''https://stockanalysis.com'' @ us \<and>
                       url a \<noteq> []"
      by auto
  qed
  moreover have "\<forall>item \<in> set entries.
             get_field item ''t'' \<in> {JUndefined, JNull, JStr []} \<or>
             get_field item ''u'' \<in> {JUndefined, JNull, JStr []} \<longrightarrow> \<not> keep item"
    by (auto simp add: keep_def)
  moreover have "\<forall>a \<in> set as. truthy (sk_title a) \<and> sk_url a \<noteq> []"
    using assms(3)
    by (auto simp add: transformSvelteKitData_def normalize_news_def sk_keep_def
          split: jsval.splits sum.splits if_splits)
  ultimately show ?thesis by blast
qed

theorem emitted_title_and_url_witness:
  "articlesNode (payload_with [plain_entry, JObj [(''t'', JStr []), (''u'', JStr ''/news/y'')]]) =
     JArr [plain_entry, JObj [(''t'', JStr []), (''u'', JStr ''/news/y'')]]
   \<and> transformNewsData fixed_clock 0
        (payload_with [plain_entry, JObj [(''t'', JStr []), (''u'', JStr ''/news/y'')]]) =
       Success \<lparr>success = True, count = 1, lastUpdated = iso_of_time (int (fixed_clock 0)),
                articles = [plain_article]\<rparr>
   \<and> transformSvelteKitData 1770000000000 fixed_random 0 (payload_with [sk_entry]) =
       Inr (News (iso_of_time 1770000000000)
         [\<lparr>sk_id = JStr ''f'', sk_title = JStr ''F'', sk_summary = JStr [],
           sk_url = ''https://stockanalysis.com/news/f'', sk_source = ''StockAnalysis'',
           sk_publishedAt = JNull, sk_imageUrl = Some ''https://stockanalysis.com/img/f.png''\<rparr>])
   \<and> title plain_article = trim ''A''
   \<and> url plain_article = ''https://stockanalysis.com'' @ ''/news/a''
   \<and> \<not> keep (JObj [(''t'', JStr []), (''u'', JStr ''/news/y'')])"
  using emitted_title_and_url
    [of "payload_with [plain_entry, JObj [(''t'', JStr []), (''u'', JStr ''/news/y'')]]"
        "[plain_entry, JObj [(''t'', JStr []), (''u'', JStr ''/news/y'')]]"
        fixed_clock 0
        "\<lparr>success = True, count = 1, lastUpdated = iso_of_time (int (fixed_clock 0)),
          articles = [plain_article]\<rparr>"
        1770000000000 fixed_random 0 "payload_with [sk_entry]" "iso_of_time 1770000000000"
        "[\<lparr>sk_id = JStr ''f'', sk_title = JStr ''F'', sk_summary = JStr [],
           sk_url = ''https://stockanalysis.com/news/f'', sk_source = ''StockAnalysis'',
           sk_publishedAt = JNull, sk_imageUrl = Some ''https://stockanalysis.com/img/f.png''\<rparr>]"]
  by (simp add: eval_normalizer eval_sk plain_entry_def plain_article_def sk_entry_def)

section \<open>The upstream deadline\<close>




section \<open>A blocked upstream\<close>




section \<open>The sample entry of the specification\<close>

text \<open>Unfolding the logarithm one step at a time, for evaluation on numerals.\<close>

lemma ilog2_less: "n < 2 \<Longrightarrow> ilog2 n = 0"
  by (simp add: ilog2.simps)

lemma ilog2_step: "2 \<le> n \<Longrightarrow> ilog2 n = ilog2 (n div 2) + 1"
  by (subst ilog2.simps) simp

lemmas eval_mul =
  round_to_double_def floor_log2_def pow2_def round_half_even_def Let_def ilog2_less ilog2_step

lemma iso_of_time_sample: "iso_of_time 1700000000000 = ''2023-11-14T22:13:20.000Z''"
  by code_simp

lemma published_at_sample:
  "published_at (JNum (Fin 1700000000)) = Inr (Some ''2023-11-14T22:13:20.000Z'')"
proof -
  have "mul (Fin 1700000000) (Fin 1000) = Fin 1700000000000"
    by (simp add: eval_mul)
  moreover have "TimeClip (Fin 1700000000000) = Some 1700000000000"
    by (simp add: ToIntegerOrInfinity_def)
  ultimately show ?thesis
    by (simp add: published_at_def Date_toISOString_def iso_of_time_sample)
qed

text \<open>
  Claim C7: for the raw entry \<^verbatim>\<open>{ t: "Title", u: "/news/abc-123", d: 1700000000, s: "Summary" }\<close>
  the normalizer emits exactly the article with id \<^verbatim>\<open>abc-123\<close>, the title, the summary, the
  url \<^verbatim>\<open>https://stockanalysis.com/news/abc-123\<close>, publishedAt
  \<^verbatim>\<open>2023-11-14T22:13:20.000Z\<close> and the source \<^verbatim>\<open>StockAnalysis\<close>: the callback returns it
  whatever the clock shows, and it is the only article of a payload holding that entry.
\<close>

theorem titled_entry_article:
  "keep titled_entry
   \<and> make_article now titled_entry =
       Inr \<lparr>id' = ''abc-123'', title = ''Title'', summary = ''Summary'',
            url = ''https://stockanalysis.com/news/abc-123'',
            publishedAt = Some ''2023-11-14T22:13:20.000Z'', source = ''StockAnalysis''\<rparr>
   \<and> transformNewsData clock k (payload_with [titled_entry]) =
       Success \<lparr>success = True, count = 1, lastUpdated = iso_of_time (int (clock k)),
         articles = [\<lparr>id' = ''abc-123'', title = ''Title'', summary = ''Summary'',
                      url = ''https://stockanalysis.com/news/abc-123'',
                      publishedAt = Some ''2023-11-14T22:13:20.000Z'',
                      source = ''StockAnalysis''\<rparr>]\<rparr>"
  by (simp add: transformNewsData_def articlesNode_payload_with keep_def own_property_def
        make_article_def get_member_def nullish_def uses_clock_def pop_def trim_def is_space_def
        published_at_sample titled_entry_def)

section \<open>Structural failures\<close>

lemma transformNewsData_not_array:
  "\<not> isArray (articlesNode data) \<Longrightarrow>
   transformNewsData clock k data =
     Unexpected (truthy (opt_member data ''nodes'')) (opt_member (opt_member data ''nodes'') ''length'')"
  by (simp add: transformNewsData_def isArray_def Let_def split: jsval.splits)

text \<open>
  Claim C10: when the upstream answers 2xx JSON with the body \<^verbatim>\<open>null\<close>, the normalizer
  returns its structural-failure value, but \<^verbatim>\<open>Object.keys(rawData)\<close> in the handler's
  diagnostic line throws, and the client receives status 500 with the error
  \<^verbatim>\<open>Service unavailable\<close> (and no hint) instead of \<^verbatim>\<open>Data structure changed\<close>. The body
  is \<^verbatim>\<open>{ error: "Service unavailable" }\<close>, with the message of the exception as \<^verbatim>\<open>debug\<close>
  when \<^verbatim>\<open>NODE_ENV\<close> is \<^verbatim>\<open>development\<close>.
\<close>

theorem null_payload_service_unavailable:
  assumes "method' req = ''GET''" "t < 8000" "ok r"
      and "includes' (case content_type r of None \<Rightarrow> [] | Some ct \<Rightarrow> ct) ''application/json''"
      and "json r = Fulfils t' JNull"
  shows "transformNewsData clock 1 JNull = Unexpected False JUndefined
       \<and> truthy (error_of (transformNewsData clock 1 JNull))
       \<and> isl (Object_keys JNull)
       \<and> res_status (handler clock node_env (Fulfils t r) req) = Some 500
       \<and> body_field (handler clock node_env (Fulfils t r) req) ''error'' =
           JStr ''Service unavailable''
       \<and> body_field (handler clock node_env (Fulfils t r) req) ''hint'' = JUndefined
       \<and> res_body (handler clock node_env (Fulfils t r) req) =
           Some (JObj ((''error'', JStr ''Service unavailable'') #
                       (if node_env = Some ''development''
                        then [(''debug'', JStr ''Cannot convert undefined or null to object'')]
                        else [])))"
proof -
  have t: "transformNewsData clock 1 JNull = Unexpected False JUndefined"
    by (simp add: transformNewsData_def articlesNode_def opt_member_def nullish_def)
  show ?thesis
    unfolding json_path [OF assms] t
    by (simp add: Object_keys_def nullish_def on_error_def TypeError_def body_field_def
          own_property_def)
qed

theorem null_payload_service_unavailable_witness:
  "method' GET = ''GET'' \<and> ok (json_response JNull) \<and> json (json_response JNull) = Fulfils 40 JNull
   \<and> res_status (handler fixed_clock None (Fulfils 120 (json_response JNull)) GET) = Some 500
   \<and> res_body (handler fixed_clock None (Fulfils 120 (json_response JNull)) GET) =
       Some (JObj [(''error'', JStr ''Service unavailable'')])"
  using null_payload_service_unavailable [of GET 120 "json_response JNull" 40 fixed_clock None]
  by (simp add: GET_def json_response_def ok_def)

text \<open>
  Claim C6 says that every 2xx JSON payload whose value at \<^verbatim>\<open>nodes[1].data\<close> is not an array
  is answered with status 500 and the error \<^verbatim>\<open>Data structure changed\<close>. The handler does so
  for every payload but \<^verbatim>\<open>null\<close>, where its diagnostic line throws: the status is 500
  always, the error and the hint are those of the structural failure exactly when the payload
  is not \<^verbatim>\<open>null\<close>.
\<close>

theorem structure_changed_unless_null:
  assumes "method' req = ''GET''" "t < 8000" "ok r"
      and "includes' (case content_type r of None \<Rightarrow> [] | Some ct \<Rightarrow> ct) ''application/json''"
      and "json r = Fulfils t' data"
      and "\<not> isArray (articlesNode data)"
  shows "res_status (handler clock node_env (Fulfils t r) req) = Some 500
       \<and> body_field (handler clock node_env (Fulfils t r) req) ''error'' =
           (if nullish data then JStr ''Service unavailable'' else JStr ''Data structure changed'')
       \<and> body_field (handler clock node_env (Fulfils t r) req) ''hint'' =
           (if nullish data then JUndefined else JStr ''Check transformation logic'')"
  unfolding json_path [OF assms(1-5)] transformNewsData_not_array [OF assms(6)]
  by (simp add: Object_keys_def on_error_def TypeError_def body_field_def own_property_def)

theorem structure_changed_unless_null_witness:
  "method' GET = ''GET'' \<and> ok (json_response (JObj [])) \<and> \<not> isArray (articlesNode (JObj []))
   \<and> res_status (handler fixed_clock None (Fulfils 120 (json_response (JObj []))) GET) = Some 500
   \<and> res_body (handler fixed_clock None (Fulfils 120 (json_response (JObj []))) GET) =
       Some (JObj [(''error'', JStr ''Data structure changed''),
                   (''hint'', JStr ''Check transformation logic'')])
   \<and> \<not> isArray (articlesNode JNull)
   \<and> body_field (handler fixed_clock None (Fulfils 120 (json_response JNull)) GET) ''error'' =
       JStr ''Service unavailable''"
  using structure_changed_unless_null [of GET 120 "json_response (JObj [])" 40 "JObj []" fixed_clock None]
        structure_changed_unless_null [of GET 120 "json_response JNull" 40 JNull fixed_clock None]
  by (simp add: GET_def json_response_def ok_def articlesNode_def opt_member_def nullish_def
        own_property_def isArray_def handler_def await_fetch_def on_response_def
        transformNewsData_def Object_keys_def)

section \<open>Isolation of entries\<close>

lemma make_article_needs_strings:
  assumes "(\<forall>us. get_field item ''u'' \<noteq> JStr us) \<or> (\<forall>ts. get_field item ''t'' \<noteq> JStr ts)"
  shows "isl (make_article now item)"
proof (cases "make_article now item")
  case (Inl e)
  then show ?thesis by simp
next
  case (Inr a)
  from make_article_Inr [OF Inr] assms show ?thesis by blast
qed

lemma transformNewsData_throws:
  assumes "articlesNode data = JArr entries" "item \<in> set entries" "keep item"
      and "\<forall>now. isl (make_article now item)"
  shows "\<exists>m. transformNewsData clock k data = Caught m"
proof -
  have "item \<in> set (filter keep entries)"
    using assms(2,3) by simp
  then have "isl (map_articles clock k (filter keep entries))"
    using assms(4) by (rule map_articles_throws)
  then show ?thesis
    by (auto simp add: transformNewsData_array [OF assms(1)] isl_def)
qed

text \<open>
  Claim C2 says that filtering and mapping are applied independently per entry, so that one
  malformed entry, for example one with a URL field that is not a string, never aborts the
  batch. The \<^verbatim>\<open>try\<close> block of \<^verbatim>\<open>transformNewsData\<close> spans the whole batch: an entry with a
  title and the URL field \<^verbatim>\<open>5\<close> passes the filter, \<^verbatim>\<open>item.u.split\<close> throws, and the entry
  before it is lost with it.
\<close>

theorem mistyped_url_counterexample:
  "transformNewsData fixed_clock 0 (payload_with [plain_entry]) =
     Success \<lparr>success = True, count = 1, lastUpdated = iso_of_time (int (fixed_clock 0)),
              articles = [plain_article]\<rparr>
   \<and> keep mistyped_entry
   \<and> transformNewsData fixed_clock 0 (payload_with [plain_entry, mistyped_entry]) =
       Caught ''item.u.split is not a function''"
  by (simp add: eval_normalizer plain_entry_def plain_article_def mistyped_entry_def
        not_callable_def TypeError_def)

text \<open>
  C2 as amended: filtering is applied per entry. An entry that the filter drops (one whose
  title or URL path is missing or empty) changes nothing: with or without it the result is
  the same. An entry that passes the filter with a title or a URL path that is not a string
  makes the whole batch fail with \<^verbatim>\<open>{ error: message }\<close>. When the batch succeeds, the
  articles are those of the kept entries, in order, each the record the callback makes of
  its own entry.
\<close>

theorem filtering_per_entry:
  assumes "articlesNode data = JArr (xs @ item # ys)"
      and "articlesNode data' = JArr (xs @ ys)"
  shows "(\<not> keep item \<longrightarrow> transformNewsData clock k data = transformNewsData clock k data')
       \<and> (keep item \<and> ((\<forall>us. get_field item ''u'' \<noteq> JStr us) \<or>
                        (\<forall>ts. get_field item ''t'' \<noteq> JStr ts)) \<longrightarrow>
            (\<exists>m. transformNewsData clock k data = Caught m))
       \<and> (\<forall>e. transformNewsData clock k data = Success e \<longrightarrow>
            list_all2 (\<lambda>entry a. keep entry \<and> (\<exists>now. make_article now entry = Inr a))
              (filter keep (xs @ item # ys)) (articles e))"
proof (intro conjI impI allI)
  assume "\<not> keep item"
  then show "transformNewsData clock k data = transformNewsData clock k data'"
    by (simp add: transformNewsData_array [OF assms(1)] transformNewsData_array [OF assms(2)])
next
  assume a: "keep item \<and> ((\<forall>us. get_field item ''u'' \<noteq> JStr us) \<or>
                        (\<forall>ts. get_field item ''t'' \<noteq> JStr ts))"
  then have "\<forall>now. isl (make_article now item)"
    using make_article_needs_strings by blast
  moreover have "item \<in> set (xs @ item # ys)" by simp
  ultimately show "\<exists>m. transformNewsData clock k data = Caught m"
    using a transformNewsData_throws [OF assms(1)] by blast
next
  fix e
  assume "transformNewsData clock k data = Success e"
  with assms(1) show "list_all2 (\<lambda>entry a. keep entry \<and> (\<exists>now. make_article now entry = Inr a))
              (filter keep (xs @ item # ys)) (articles e)"
    by (rule kept_entries_articles)
qed

theorem filtering_per_entry_witness:
  "articlesNode (payload_with ([plain_entry] @ mistyped_entry # [])) =
     JArr ([plain_entry] @ mistyped_entry # [])
   \<and> articlesNode (payload_with ([plain_entry] @ [])) = JArr ([plain_entry] @ [])
   \<and> keep mistyped_entry \<and> get_field mistyped_entry ''u'' = JNum (Fin 5)
   \<and> transformNewsData fixed_clock 0 (payload_with ([plain_entry] @ mistyped_entry # [])) =
       Caught ''item.u.split is not a function''
   \<and> articlesNode (payload_with ([plain_entry] @ JNull # [])) = JArr ([plain_entry] @ JNull # [])
   \<and> \<not> keep JNull
   \<and> transformNewsData fixed_clock 0 (payload_with ([plain_entry] @ JNull # [])) =
       transformNewsData fixed_clock 0 (payload_with ([plain_entry] @ []))
   \<and> transformNewsData fixed_clock 0 (payload_with ([plain_entry] @ JNull # [])) =
       Success \<lparr>success = True, count = 1, lastUpdated = iso_of_time (int (fixed_clock 0)),
                articles = [plain_article]\<rparr>"
  using filtering_per_entry
          [of "payload_with ([plain_entry] @ mistyped_entry # [])" "[plain_entry]" mistyped_entry "[]"
              "payload_with ([plain_entry] @ [])" fixed_clock 0]
        filtering_per_entry
          [of "payload_with ([plain_entry] @ JNull # [])" "[plain_entry]" JNull "[]"
              "payload_with ([plain_entry] @ [])" fixed_clock 0]
  by (simp add: eval_normalizer plain_entry_def plain_article_def mistyped_entry_def
        not_callable_def TypeError_def)

section \<open>The publication date\<close>

lemma published_at_Inr:
  assumes "published_at d = Inr p"
  shows "if truthy d
         then \<exists>n tv. ToNumber d = Inr n \<and> TimeClip (mul n (Fin 1000)) = Some tv \<and>
                p = Some (iso_of_time tv)
         else p = None"
  using assms
  by (auto simp add: published_at_def Date_toISOString_def split: sum.splits option.splits)

lemma published_at_invalid:
  assumes "truthy (JNum n)" "TimeClip (mul n (Fin 1000)) = None"
  shows "published_at (JNum n) = Inl (RangeError ''Invalid time value'')"
  using assms by (simp add: published_at_def Date_toISOString_def)

lemma make_article_invalid_date:
  assumes "get_field item ''d'' = JNum n" "truthy (JNum n)" "TimeClip (mul n (Fin 1000)) = None"
  shows "isl (make_article now item)"
proof (cases "make_article now item")
  case (Inl e)
  then show ?thesis by simp
next
  case (Inr a)
  from make_article_Inr [OF Inr] have "published_at (get_field item ''d'') = Inr (publishedAt a)"
    by blast
  with published_at_invalid [OF assms(2,3)] assms(1) show ?thesis by simp
qed

lemma published_at_far_future:
  "published_at (JNum (Fin 10000000000000000)) = Inl (RangeError ''Invalid time value'')"
proof -
  have "mul (Fin 10000000000000000) (Fin 1000) = Fin 10000000000000000000"
    by (simp add: eval_mul)
  then show ?thesis
    by (simp add: published_at_def Date_toISOString_def)
qed

text \<open>The loop returns when no entry throws, and throws what the first throwing entry
  throws.\<close>

lemma map_articles_returns:
  "\<forall>x \<in> set xs. \<forall>now. \<not> isl (make_article now x) \<Longrightarrow>
   \<exists>as k'. map_articles clock k xs = Inr (as, k')"
proof (induction xs arbitrary: k)
  case Nil
  then show ?case by simp
next
  case (Cons x xs)
  from Cons.prems obtain a where a: "make_article (clock k) x = Inr a"
    by (cases "make_article (clock k) x") (auto simp add: isl_def)
  from Cons.prems have "\<forall>x \<in> set xs. \<forall>now. \<not> isl (make_article now x)" by simp
  from Cons.IH [OF this, of "if uses_clock x then Suc k else k"] a
  show ?case by auto
qed

lemma map_articles_first_throw:
  assumes "\<forall>x \<in> set xs. \<forall>now. \<not> isl (make_article now x)"
      and "\<forall>now. make_article now item = Inl e"
  shows "map_articles clock k (xs @ item # ys) = Inl e"
  using assms(1)
proof (induction xs arbitrary: k)
  case Nil
  then show ?case using assms(2) by simp
next
  case (Cons x xs)
  from Cons.prems obtain a where a: "make_article (clock k) x = Inr a"
    by (cases "make_article (clock k) x") (auto simp add: isl_def)
  from Cons.prems have "\<forall>x \<in> set xs. \<forall>now. \<not> isl (make_article now x)" by simp
  from Cons.IH [OF this, of "if uses_clock x then Suc k else k"] a
  show ?case by simp
qed

text \<open>An entry whose URL path, title and summary let the callback reach the date, where
  the time value is invalid.\<close>

lemma make_article_invalid_time:
  assumes "truthy item"
      and "get_field item ''u'' = JStr us" "get_field item ''t'' = JStr ts"
      and "\<not> truthy (get_field item ''s'') \<or> (\<exists>ss. get_field item ''s'' = JStr ss)"
      and "get_field item ''d'' = JNum n" "truthy (JNum n)"
      and "TimeClip (mul n (Fin 1000)) = None"
  shows "make_article now item = Inl (RangeError ''Invalid time value'')"
proof -
  have nn: "\<not> nullish item"
    using assms(1) by (auto simp add: nullish_def)
  obtain ss where s:
    "(if truthy (get_field item ''s'') then get_field item ''s'' else JStr []) = JStr ss"
    using assms(4) by (cases "truthy (get_field item ''s'')") auto
  show ?thesis
    using nn assms(2,3) s published_at_invalid [OF assms(6,7)] assms(5)
    by (simp add: make_article_def get_member_def Let_def)
qed

text \<open>
  Claim C3 says that publishedAt is the ISO-8601 conversion of the numeric date field when
  it is present and null otherwise, and that an invalid or out-of-range number yields null
  rather than a failure of the batch. \<^verbatim>\<open>toISOString\<close> throws a RangeError on the invalid
  date: the entry with \<^verbatim>\<open>d: 1e16\<close> (that is 1e19 ms, beyond the 8.64e15 ms a Date holds)
  makes the whole batch fail, the well-formed entry before it included.
\<close>

theorem far_future_counterexample:
  "keep far_future_entry
   \<and> get_field far_future_entry ''d'' = JNum (Fin 10000000000000000)
   \<and> transformNewsData fixed_clock 0 (payload_with [plain_entry, far_future_entry]) =
       Caught ''Invalid time value''"
  by (simp add: eval_normalizer published_at_far_future plain_entry_def far_future_entry_def
        RangeError_def)

text \<open>
  C3 as amended: in a successful batch, the publishedAt of each kept entry is null when its
  date field is absent or otherwise falsy (\<^verbatim>\<open>null\<close>, \<^verbatim>\<open>0\<close>, \<^verbatim>\<open>""\<close>, \<^verbatim>\<open>false\<close>), and
  else the ISO-8601 string of the time value \<^verbatim>\<open>TimeClip(ToNumber(d) * 1000)\<close>, which is then
  valid. A kept entry whose date field is a truthy number with an invalid time value (the
  product is infinite or beyond 8.64e15 ms in magnitude) makes the whole batch fail with
  \<^verbatim>\<open>{ error: message }\<close>. The message is that of the exception of the first kept entry on
  which the callback throws. It is \<^verbatim>\<open>Invalid time value\<close> when every kept entry before the
  entry with the invalid time value is mapped without an exception and the URL path and the
  title of that entry are strings and its summary is a string or falsy, so that the
  properties written before publishedAt evaluate.
\<close>

theorem published_at_of_kept_entries:
  assumes "articlesNode data = JArr entries"
  shows "(\<forall>e. transformNewsData clock k data = Success e \<longrightarrow>
            list_all2 (\<lambda>item a.
                if truthy (get_field item ''d'')
                then \<exists>n tv. ToNumber (get_field item ''d'') = Inr n \<and>
                       TimeClip (mul n (Fin 1000)) = Some tv \<and>
                       publishedAt a = Some (iso_of_time tv)
                else publishedAt a = None)
              (filter keep entries) (articles e))
       \<and> (\<forall>item n. item \<in> set entries \<and> keep item \<and> get_field item ''d'' = JNum n \<and>
              truthy (JNum n) \<and> TimeClip (mul n (Fin 1000)) = None \<longrightarrow>
            (\<exists>m. transformNewsData clock k data = Caught m))
       \<and> (\<forall>pre item post n.
              entries = pre @ item # post \<and>
              (\<forall>x \<in> set pre. keep x \<longrightarrow> (\<forall>now. \<not> isl (make_article now x))) \<and>
              keep item \<and>
              (\<exists>us. get_field item ''u'' = JStr us) \<and> (\<exists>ts. get_field item ''t'' = JStr ts) \<and>
              (\<not> truthy (get_field item ''s'') \<or> (\<exists>ss. get_field item ''s'' = JStr ss)) \<and>
              get_field item ''d'' = JNum n \<and> truthy (JNum n) \<and>
              TimeClip (mul n (Fin 1000)) = None \<longrightarrow>
            transformNewsData clock k data = Caught ''Invalid time value'')
       \<and> (\<forall>pre item post e.
              entries = pre @ item # post \<and>
              (\<forall>x \<in> set pre. keep x \<longrightarrow> (\<forall>now. \<not> isl (make_article now x))) \<and>
              keep item \<and> (\<forall>now. make_article now item = Inl e) \<longrightarrow>
            transformNewsData clock k data = Caught (err_message e))"
proof (intro conjI impI allI)
  fix e
  assume "transformNewsData clock k data = Success e"
  with assms have "list_all2 (\<lambda>item a. keep item \<and> (\<exists>now. make_article now item = Inr a))
                     (filter keep entries) (articles e)"
    by (rule kept_entries_articles)
  then show "list_all2 (\<lambda>item a.
                if truthy (get_field item ''d'')
                then \<exists>n tv. ToNumber (get_field item ''d'') = Inr n \<and>
                       TimeClip (mul n (Fin 1000)) = Some tv \<and>
                       publishedAt a = Some (iso_of_time tv)
                else publishedAt a = None)
              (filter keep entries) (articles e)"
  proof (rule list_all2_mono)
    fix item a
    assume "keep item \<and> (\<exists>now. make_article now item = Inr a)"
    then obtain now where "make_article now item = Inr a" by blast
    from make_article_Inr [OF this]
    have "published_at (get_field item ''d'') = Inr (publishedAt a)" by blast
    then show "if truthy (get_field item ''d'')
               then \<exists>n tv. ToNumber (get_field item ''d'') = Inr n \<and>
                      TimeClip (mul n (Fin 1000)) = Some tv \<and>
                      publishedAt a = Some (iso_of_time tv)
               else publishedAt a = None"
      by (rule published_at_Inr)
  qed
next
  fix item n
  assume a: "item \<in> set entries \<and> keep item \<and> get_field item ''d'' = JNum n \<and>
             truthy (JNum n) \<and> TimeClip (mul n (Fin 1000)) = None"
  then have "\<forall>now. isl (make_article now item)"
    using make_article_invalid_date by blast
  with a show "\<exists>m. transformNewsData clock k data = Caught m"
    using transformNewsData_throws [OF assms] by blast
next
  fix pre item post n
  assume a: "entries = pre @ item # post \<and>
              (\<forall>x \<in> set pre. keep x \<longrightarrow> (\<forall>now. \<not> isl (make_article now x))) \<and>
              keep item \<and>
              (\<exists>us. get_field item ''u'' = JStr us) \<and> (\<exists>ts. get_field item ''t'' = JStr ts) \<and>
              (\<not> truthy (get_field item ''s'') \<or> (\<exists>ss. get_field item ''s'' = JStr ss)) \<and>
              get_field item ''d'' = JNum n \<and> truthy (JNum n) \<and>
              TimeClip (mul n (Fin 1000)) = None"
  then have k: "keep item" and t: "truthy item"
    by (simp_all add: keep_def)
  from a obtain us ts where "get_field item ''u'' = JStr us" "get_field item ''t'' = JStr ts"
    by blast
  with a t have "\<forall>now. make_article now item = Inl (RangeError ''Invalid time value'')"
    using make_article_invalid_time by blast
  moreover from a have "\<forall>x \<in> set (filter keep pre). \<forall>now. \<not> isl (make_article now x)"
    by simp
  ultimately have "map_articles clock k (filter keep pre @ item # filter keep post) =
                     Inl (RangeError ''Invalid time value'')"
    by (rule map_articles_first_throw [rotated])
  moreover from a k have "filter keep entries = filter keep pre @ item # filter keep post"
    by simp
  ultimately show "transformNewsData clock k data = Caught ''Invalid time value''"
    by (simp add: transformNewsData_array [OF assms] RangeError_def)
next
  fix pre item post e
  assume a: "entries = pre @ item # post \<and>
              (\<forall>x \<in> set pre. keep x \<longrightarrow> (\<forall>now. \<not> isl (make_article now x))) \<and>
              keep item \<and> (\<forall>now. make_article now item = Inl e)"
  then have "\<forall>x \<in> set (filter keep pre). \<forall>now. \<not> isl (make_article now x)"
    by simp
  moreover from a have "\<forall>now. make_article now item = Inl e"
    by simp
  ultimately have "map_articles clock k (filter keep pre @ item # filter keep post) = Inl e"
    by (rule map_articles_first_throw)
  moreover from a have "filter keep entries = filter keep pre @ item # filter keep post"
    by simp
  ultimately show "transformNewsData clock k data = Caught (err_message e)"
    by (simp add: transformNewsData_array [OF assms])
qed

theorem published_at_of_kept_entries_witness:
  "articlesNode (payload_with [titled_entry, plain_entry]) = JArr [titled_entry, plain_entry]
   \<and> transformNewsData fixed_clock 0 (payload_with [titled_entry, plain_entry]) =
       Success \<lparr>success = True, count = 2, lastUpdated = iso_of_time (int (fixed_clock 0)),
         articles = [\<lparr>id' = ''abc-123'', title = ''Title'', summary = ''Summary'',
                      url = ''https://stockanalysis.com/news/abc-123'',
                      publishedAt = Some ''2023-11-14T22:13:20.000Z'',
                      source = ''StockAnalysis''\<rparr>, plain_article]\<rparr>
   \<and> get_field titled_entry ''d'' = JNum (Fin 1700000000)
   \<and> TimeClip (mul (Fin 1700000000) (Fin 1000)) = Some 1700000000000
   \<and> iso_of_time 1700000000000 = ''2023-11-14T22:13:20.000Z''
   \<and> get_field plain_entry ''d'' = JUndefined \<and> publishedAt plain_article = None
   \<and> articlesNode (payload_with [plain_entry, far_future_entry]) =
       JArr [plain_entry, far_future_entry]
   \<and> keep far_future_entry
   \<and> get_field far_future_entry ''d'' = JNum (Fin 10000000000000000)
   \<and> TimeClip (mul (Fin 10000000000000000) (Fin 1000)) = None
   \<and> transformNewsData fixed_clock 0 (payload_with [plain_entry, far_future_entry]) =
       Caught ''Invalid time value''
   \<and> articlesNode (payload_with [mistyped_entry, far_future_entry]) =
       JArr [mistyped_entry, far_future_entry]
   \<and> transformNewsData fixed_clock 0 (payload_with [mistyped_entry, far_future_entry]) =
       Caught ''item.u.split is not a function''"
proof -
  have m1: "mul (Fin 1700000000) (Fin 1000) = Fin 1700000000000"
    by (simp add: eval_mul)
  have m2: "mul (Fin 10000000000000000) (Fin 1000) = Fin 10000000000000000000"
    by (simp add: eval_mul)
  have t1: "TimeClip (mul (Fin 1700000000) (Fin 1000)) = Some 1700000000000"
    unfolding m1 by (simp add: ToIntegerOrInfinity_def)
  have t2: "TimeClip (mul (Fin 10000000000000000) (Fin 1000)) = None"
    unfolding m2 by simp
  show ?thesis
    unfolding t1 t2
    using published_at_of_kept_entries
            [of "payload_with [titled_entry, plain_entry]" "[titled_entry, plain_entry]"
                fixed_clock 0]
          published_at_of_kept_entries
            [of "payload_with [plain_entry, far_future_entry]" "[plain_entry, far_future_entry]"
                fixed_clock 0]
          published_at_of_kept_entries
            [of "payload_with [mistyped_entry, far_future_entry]"
                "[mistyped_entry, far_future_entry]" fixed_clock 0]
    by (simp add: eval_normalizer published_at_far_future published_at_sample
          plain_entry_def plain_article_def far_future_entry_def titled_entry_def
          mistyped_entry_def not_callable_def TypeError_def
          RangeError_def iso_of_time_sample)
qed

section \<open>Determinism up to the clock\<close>

text \<open>The callback either throws the same exception whatever the clock shows, or returns a
  record in which only the id can depend on the clock.\<close>

lemma make_article_now:
  "(\<exists>e. \<forall>now. make_article now item = Inl e)
   \<or> (\<exists>us ts ss p. get_field item ''u'' = JStr us \<and>
         (\<forall>now. make_article now item =
            Inr \<lparr>id' = (if last (split (CHR ''/'') us) \<noteq> [] then last (split (CHR ''/'') us)
                        else digits10 now),
                 title = trim ts, summary = trim ss,
                 url = ''https://stockanalysis.com'' @ us,
                 publishedAt = p, source = ''StockAnalysis''\<rparr>))"
proof (cases "nullish item")
  case True
  then show ?thesis by (simp add: make_article_def get_member_def)
next
  case nn: False
  show ?thesis
  proof (cases "get_field item ''u''")
    case u: (JStr us)
    show ?thesis
    proof (cases "get_field item ''t''")
      case t: (JStr ts)
      show ?thesis
      proof (cases "if truthy (get_field item ''s'') then get_field item ''s'' else JStr []")
        case s: (JStr ss)
        show ?thesis
        proof (cases "published_at (get_field item ''d'')")
          case (Inl e)
          then show ?thesis
            using nn u t s by (simp add: make_article_def get_member_def Let_def)
        next
          case (Inr p)
          then have "\<forall>now. make_article now item =
            Inr \<lparr>id' = (if last (split (CHR ''/'') us) \<noteq> [] then last (split (CHR ''/'') us)
                        else digits10 now),
                 title = trim ts, summary = trim ss,
                 url = ''https://stockanalysis.com'' @ us,
                 publishedAt = p, source = ''StockAnalysis''\<rparr>"
            using nn u t s
            by (simp add: make_article_def get_member_def Let_def pop_def split_not_Nil)
          then show ?thesis using u by blast
        qed
      qed (use nn u t in \<open>simp_all add: make_article_def get_member_def Let_def\<close>)
    qed (use nn u in \<open>simp_all add: make_article_def get_member_def Let_def\<close>)
  qed (use nn in \<open>simp_all add: make_article_def get_member_def\<close>)
qed

lemma uses_clock_string:
  "get_field item ''u'' = JStr us \<Longrightarrow> uses_clock item = (last (split (CHR ''/'') us) = [])"
  by (simp add: uses_clock_def pop_def split_not_Nil)

lemma make_article_clock_free:
  assumes "\<not> uses_clock item"
  shows "make_article n1 item = make_article n2 item"
  using make_article_now [of item] assms
  by (auto simp add: uses_clock_string)

lemma make_article_without_id:
  "map_sum (\<lambda>e. e) without_id (make_article n1 item) =
   map_sum (\<lambda>e. e) without_id (make_article n2 item)"
  using make_article_now [of item]
  by (auto simp add: without_id_def)

lemma map_articles_clock_free:
  "\<forall>x \<in> set xs. \<not> uses_clock x \<Longrightarrow>
   map_sum (\<lambda>e. e) fst (map_articles c1 k1 xs) = map_sum (\<lambda>e. e) fst (map_articles c2 k2 xs)"
proof (induction xs arbitrary: k1 k2)
  case Nil
  then show ?case by simp
next
  case (Cons x xs)
  have x: "make_article (c1 k1) x = make_article (c2 k2) x"
    using Cons.prems by (simp add: make_article_clock_free)
  have "map_sum (\<lambda>e. e) fst (map_articles c1 k1 xs) = map_sum (\<lambda>e. e) fst (map_articles c2 k2 xs)"
    using Cons.IH Cons.prems by simp
  then show ?case
    using Cons.prems x
    by (cases "make_article (c2 k2) x"; cases "map_articles c1 k1 xs"; cases "map_articles c2 k2 xs")
       auto
qed

lemma map_articles_without_id:
  "map_sum (\<lambda>e. e) (\<lambda>r. map without_id (fst r)) (map_articles c1 k1 xs) =
   map_sum (\<lambda>e. e) (\<lambda>r. map without_id (fst r)) (map_articles c2 k2 xs)"
proof (induction xs arbitrary: k1 k2)
  case Nil
  then show ?case by simp
next
  case (Cons x xs)
  let ?j1 = "if uses_clock x then Suc k1 else k1" and ?j2 = "if uses_clock x then Suc k2 else k2"
  have x: "map_sum (\<lambda>e. e) without_id (make_article (c1 k1) x) =
           map_sum (\<lambda>e. e) without_id (make_article (c2 k2) x)"
    by (rule make_article_without_id)
  have r: "map_sum (\<lambda>e. e) (\<lambda>r. map without_id (fst r)) (map_articles c1 ?j1 xs) =
           map_sum (\<lambda>e. e) (\<lambda>r. map without_id (fst r)) (map_articles c2 ?j2 xs)"
    by (rule Cons.IH)
  show ?case
    using x r
    by (cases "make_article (c1 k1) x"; cases "make_article (c2 k2) x";
        cases "map_articles c1 ?j1 xs"; cases "map_articles c2 ?j2 xs")
       (auto simp del: map_articles.simps simp add: map_articles.simps(2) [of c1 k1] map_articles.simps(2) [of c2 k2])
qed

lemma transformNewsData_without_id:
  "error_of (transformNewsData c1 k1 data) = error_of (transformNewsData c2 k2 data)
   \<and> map without_id (articles_of (transformNewsData c1 k1 data)) =
       map without_id (articles_of (transformNewsData c2 k2 data))"
proof (cases "articlesNode data")
  case (JArr entries)
  have "map_sum (\<lambda>e. e) (\<lambda>r. map without_id (fst r)) (map_articles c1 k1 (filter keep entries)) =
        map_sum (\<lambda>e. e) (\<lambda>r. map without_id (fst r)) (map_articles c2 k2 (filter keep entries))"
    by (rule map_articles_without_id)
  then show ?thesis
    unfolding transformNewsData_array [OF JArr]
    by (cases "map_articles c1 k1 (filter keep entries)";
        cases "map_articles c2 k2 (filter keep entries)") auto
qed (simp_all add: transformNewsData_def Let_def)

lemma transformNewsData_clock_free:
  assumes "articlesNode data = JArr entries"
      and "\<forall>item \<in> set entries. keep item \<longrightarrow> \<not> uses_clock item"
  shows "articles_of (transformNewsData c1 k1 data) = articles_of (transformNewsData c2 k2 data)"
proof -
  have "\<forall>x \<in> set (filter keep entries). \<not> uses_clock x"
    using assms(2) by simp
  then have "map_sum (\<lambda>e. e) fst (map_articles c1 k1 (filter keep entries)) =
             map_sum (\<lambda>e. e) fst (map_articles c2 k2 (filter keep entries))"
    by (rule map_articles_clock_free)
  then show ?thesis
    unfolding transformNewsData_array [OF assms(1)]
    by (cases "map_articles c1 k1 (filter keep entries)";
        cases "map_articles c2 k2 (filter keep entries)") auto
qed

text \<open>The earlier normalizer: only the id can depend on the random numbers drawn.\<close>

lemma sk_make_article_random_free:
  "\<not> uses_random item \<Longrightarrow> sk_make_article r1 item = sk_make_article r2 item"
  by (auto simp add: sk_make_article_def uses_random_def or_else_def split: sum.splits)

lemma sk_make_article_without_id:
  "map_sum (\<lambda>e. e) sk_without_id (sk_make_article r1 item) =
   map_sum (\<lambda>e. e) sk_without_id (sk_make_article r2 item)"
  by (auto simp add: sk_make_article_def sk_without_id_def split: sum.splits)

lemma sk_map_articles_random_free:
  "\<forall>x \<in> set xs. \<not> uses_random x \<Longrightarrow>
   sk_map_articles r1 k1 xs = sk_map_articles r2 k2 xs"
proof (induction xs arbitrary: k1 k2)
  case Nil
  then show ?case by simp
next
  case (Cons x xs)
  have "sk_make_article (r1 k1) x = sk_make_article (r2 k2) x"
    using Cons.prems by (simp add: sk_make_article_random_free)
  moreover have "sk_map_articles r1 k1 xs = sk_map_articles r2 k2 xs"
    using Cons.IH Cons.prems by simp
  ultimately show ?case
    using Cons.prems by (cases "sk_make_article (r2 k2) x") simp_all
qed

lemma sk_map_articles_without_id:
  "map_sum (\<lambda>e. e) (map sk_without_id) (sk_map_articles r1 k1 xs) =
   map_sum (\<lambda>e. e) (map sk_without_id) (sk_map_articles r2 k2 xs)"
proof (induction xs arbitrary: k1 k2)
  case Nil
  then show ?case by simp
next
  case (Cons x xs)
  let ?j1 = "if uses_random x then Suc k1 else k1" and ?j2 = "if uses_random x then Suc k2 else k2"
  have x: "map_sum (\<lambda>e. e) sk_without_id (sk_make_article (r1 k1) x) =
           map_sum (\<lambda>e. e) sk_without_id (sk_make_article (r2 k2) x)"
    by (rule sk_make_article_without_id)
  have r: "map_sum (\<lambda>e. e) (map sk_without_id) (sk_map_articles r1 ?j1 xs) =
           map_sum (\<lambda>e. e) (map sk_without_id) (sk_map_articles r2 ?j2 xs)"
    by (rule Cons.IH)
  show ?case
    using x r
    by (cases "sk_make_article (r1 k1) x"; cases "sk_make_article (r2 k2) x";
        cases "sk_map_articles r1 ?j1 xs"; cases "sk_map_articles r2 ?j2 xs")
       (auto simp del: sk_map_articles.simps
             simp add: sk_map_articles.simps(2) [of r1 k1] sk_map_articles.simps(2) [of r2 k2])
qed

lemma sk_keep_without_id: "sk_keep (sk_without_id a) = sk_keep a"
  by (simp add: sk_keep_def sk_without_id_def)

lemma filter_sk_keep_without_id:
  "map sk_without_id (filter sk_keep as) = filter sk_keep (map sk_without_id as)"
  by (induction as) (simp_all add: sk_keep_without_id)

lemma transformSvelteKitData_without_id:
  "map sk_without_id (sk_articles_of (transformSvelteKitData now1 r1 k1 data)) =
   map sk_without_id (sk_articles_of (transformSvelteKitData now2 r2 k2 data))"
proof (cases "articlesNode data")
  case (JArr entries)
  have "map_sum (\<lambda>e. e) (map sk_without_id) (sk_map_articles r1 k1 entries) =
        map_sum (\<lambda>e. e) (map sk_without_id) (sk_map_articles r2 k2 entries)"
    by (rule sk_map_articles_without_id)
  then show ?thesis
    unfolding transformSvelteKitData_def normalize_news_def JArr
    by (cases "sk_map_articles r1 k1 entries"; cases "sk_map_articles r2 k2 entries")
       (auto simp add: filter_sk_keep_without_id)
qed (simp_all add: transformSvelteKitData_def normalize_news_def split: sum.splits)

lemma transformSvelteKitData_random_free:
  assumes "articlesNode data = JArr entries"
      and "\<forall>item \<in> set entries. \<not> uses_random item"
  shows "sk_articles_of (transformSvelteKitData now1 r1 k1 data) =
         sk_articles_of (transformSvelteKitData now2 r2 k2 data)"
  using sk_map_articles_random_free [OF assms(2), of r1 k1 r2 k2]
  by (simp add: transformSvelteKitData_def normalize_news_def assms(1) split: sum.splits)

lemma digits10_less: "n < 10 \<Longrightarrow> digits10 n = [''0123456789'' ! n]"
  by (simp add: digits10.simps)

lemma digits10_step:
  "10 \<le> n \<Longrightarrow> digits10 n = digits10 (n div 10) @ [''0123456789'' ! (n mod 10)]"
  by (subst digits10.simps) simp

lemma fallback_ids:
  "digits10 (fixed_clock (Suc 0)) = ''1770000000001''"
  "digits10 (later_clock (Suc 0)) = ''1770000060001''"
  by (simp_all add: fixed_clock_def later_clock_def digits10_less digits10_step)

text \<open>
  Claim C8 says that two invocations of the handler on the same upstream payload produce
  identical articles, every field equal, only lastUpdated differing. An entry whose URL path
  ends with a slash has an empty last segment, and its id is then \<^verbatim>\<open>Date.now().toString()\<close>:
  one minute later the same payload gives another id.
\<close>

theorem fallback_id_counterexample:
  "keep trailing_slash_entry
   \<and> articles_of (transformNewsData fixed_clock 1 (payload_with [trailing_slash_entry])) =
       [\<lparr>id' = ''1770000000001'', title = ''D'', summary = [],
         url = ''https://stockanalysis.com/news/'', publishedAt = None,
         source = ''StockAnalysis''\<rparr>]
   \<and> articles_of (transformNewsData later_clock 1 (payload_with [trailing_slash_entry])) =
       [\<lparr>id' = ''1770000060001'', title = ''D'', summary = [],
         url = ''https://stockanalysis.com/news/'', publishedAt = None,
         source = ''StockAnalysis''\<rparr>]
   \<and> body_field (handler fixed_clock None
         (Fulfils 120 (json_response (payload_with [trailing_slash_entry]))) GET) ''articles'' =
       JArr [JObj [(''id'', JStr ''1770000000001''), (''title'', JStr ''D''), (''summary'', JStr []),
                   (''url'', JStr ''https://stockanalysis.com/news/''), (''publishedAt'', JNull),
                   (''source'', JStr ''StockAnalysis'')]]
   \<and> body_field (handler later_clock None
         (Fulfils 120 (json_response (payload_with [trailing_slash_entry]))) GET) ''articles'' =
       JArr [JObj [(''id'', JStr ''1770000060001''), (''title'', JStr ''D''), (''summary'', JStr []),
                   (''url'', JStr ''https://stockanalysis.com/news/''), (''publishedAt'', JNull),
                   (''source'', JStr ''StockAnalysis'')]]"
proof -
  have g: "method' GET = ''GET''" by (simp add: GET_def)
  have t: "(120::nat) < 8000" by simp
  have a: "transformNewsData fixed_clock 1 (payload_with [trailing_slash_entry]) =
    Success \<lparr>success = True, count = 1, lastUpdated = iso_of_time (int (fixed_clock (Suc (Suc 0)))),
      articles = [\<lparr>id' = ''1770000000001'', title = ''D'', summary = [],
         url = ''https://stockanalysis.com/news/'', publishedAt = None,
         source = ''StockAnalysis''\<rparr>]\<rparr>"
    by (simp add: eval_normalizer trailing_slash_entry_def fallback_ids)
  have b: "transformNewsData later_clock 1 (payload_with [trailing_slash_entry]) =
    Success \<lparr>success = True, count = 1, lastUpdated = iso_of_time (int (later_clock (Suc (Suc 0)))),
      articles = [\<lparr>id' = ''1770000060001'', title = ''D'', summary = [],
         url = ''https://stockanalysis.com/news/'', publishedAt = None,
         source = ''StockAnalysis''\<rparr>]\<rparr>"
    by (simp add: eval_normalizer trailing_slash_entry_def fallback_ids)
  have k: "keep trailing_slash_entry"
    by (simp add: keep_def trailing_slash_entry_def own_property_def)
  show ?thesis
    unfolding handler_articles [OF g t json_response_simps] a b
    using k by (simp add: article_object_def)
qed

lemma transformNewsData_fallback_free:
  assumes "fallback_free data"
  shows "articles_of (transformNewsData c1 k1 data) = articles_of (transformNewsData c2 k2 data)"
proof (cases "articlesNode data")
  case (JArr entries)
  with assms have "\<forall>item \<in> set entries. keep item \<longrightarrow> \<not> uses_clock item"
    by (simp add: fallback_free_def list_all_iff)
  with JArr show ?thesis by (rule transformNewsData_clock_free)
qed (simp_all add: transformNewsData_def Let_def)

lemma transformSvelteKitData_random_free':
  assumes "random_free data"
  shows "sk_articles_of (transformSvelteKitData now1 r1 k1 data) =
         sk_articles_of (transformSvelteKitData now2 r2 k2 data)"
proof (cases "articlesNode data")
  case (JArr entries)
  with assms have "\<forall>item \<in> set entries. \<not> uses_random item"
    by (simp add: random_free_def list_all_iff)
  with JArr show ?thesis by (rule transformSvelteKitData_random_free)
qed (simp_all add: transformSvelteKitData_def normalize_news_def split: sum.splits)

text \<open>Off the path on which the normalizer runs, the handler does not read the clock but for
  the URL it fetches.\<close>

lemma handler_off_json_path:
  assumes "\<forall>t r t' data. up = Fulfils t r \<and> t < 8000 \<and> ok r \<and>
             includes' (case content_type r of None \<Rightarrow> [] | Some ct \<Rightarrow> ct) ''application/json''
             \<longrightarrow> json r \<noteq> Fulfils t' data"
  shows "res_status (handler c1 node_env up req) = res_status (handler c2 node_env up req)
       \<and> res_body (handler c1 node_env up req) = res_body (handler c2 node_env up req)"
proof (cases "method' req = ''GET''")
  case False
  then show ?thesis
    using handler_not_GET [of req c1 node_env up c2] by simp
next
  case g: True
  show ?thesis
  proof (cases "settled_before 8000 up")
    case False
    then show ?thesis by (simp add: handler_timeout [OF g])
  next
    case True
    show ?thesis
    proof (cases up)
      case Never_settles
      with True show ?thesis by (simp add: settled_before_def)
    next
      case (Rejects t e)
      with True have "t < 8000" by (simp add: settled_before_def)
      with Rejects show ?thesis
        by (simp add: handler_rejected [OF g] split: prod.splits)
    next
      case (Fulfils t r)
      with True have t: "t < 8000" by (simp add: settled_before_def)
      have "on_response c1 r = on_response c2 r"
      proof (cases "ok r \<and>
          includes' (case content_type r of None \<Rightarrow> [] | Some ct \<Rightarrow> ct) ''application/json''")
        case True
        with assms Fulfils t have "\<forall>t' data. json r \<noteq> Fulfils t' data"
          by blast
        with True show ?thesis
          by (simp add: on_response_unparsed)
      next
        case False
        then show ?thesis
          by (simp add: on_response_blocked)
      qed
      with Fulfils show ?thesis
        by (simp add: handler_resolved [OF g t] split: promise.splits prod.splits)
    qed
  qed
qed

text \<open>
  C8 as amended: for a fixed upstream behaviour, two invocations at different times answer
  with the same status; for a fixed payload the articles are equal in every field except
  possibly the id. The ids are equal too, and so are the articles of the two response
  bodies, when no kept entry has a URL path with an empty last segment (where the id is the
  time of the call). In the earlier normalizer the articles are equal up to the id whatever
  the time and the random numbers drawn, and equal when no entry takes the random id.
\<close>

theorem articles_modulo_clock:
  "res_status (handler clock1 node_env up req) = res_status (handler clock2 node_env up req)
   \<and> map without_id (articles_of (transformNewsData clock1 k1 data)) =
       map without_id (articles_of (transformNewsData clock2 k2 data))
   \<and> (fallback_free data \<longrightarrow>
         articles_of (transformNewsData clock1 k1 data) =
           articles_of (transformNewsData clock2 k2 data))
   \<and> ((\<forall>t r t' d. up = Fulfils t r \<and> json r = Fulfils t' d \<longrightarrow> fallback_free d) \<longrightarrow>
         body_field (handler clock1 node_env up req) ''articles'' =
           body_field (handler clock2 node_env up req) ''articles'')
   \<and> map sk_without_id (sk_articles_of (transformSvelteKitData now1 random1 j1 data)) =
       map sk_without_id (sk_articles_of (transformSvelteKitData now2 random2 j2 data))
   \<and> (random_free data \<longrightarrow>
         sk_articles_of (transformSvelteKitData now1 random1 j1 data) =
           sk_articles_of (transformSvelteKitData now2 random2 j2 data))"
proof -
  have h: "res_status (handler clock1 node_env up req) =
             res_status (handler clock2 node_env up req)
         \<and> ((\<forall>t r t' d. up = Fulfils t r \<and> json r = Fulfils t' d \<longrightarrow> fallback_free d) \<longrightarrow>
               body_field (handler clock1 node_env up req) ''articles'' =
                 body_field (handler clock2 node_env up req) ''articles'')"
  proof (cases "method' req = ''GET'' \<and> (\<exists>t r t' d. up = Fulfils t r \<and> t < 8000 \<and> ok r \<and>
             includes' (case content_type r of None \<Rightarrow> [] | Some ct \<Rightarrow> ct) ''application/json''
             \<and> json r = Fulfils t' d)")
    case True
    then obtain t r t' d where g: "method' req = ''GET''" and up: "up = Fulfils t r"
      and t: "t < 8000" and o: "ok r"
      and i: "includes' (case content_type r of None \<Rightarrow> [] | Some ct \<Rightarrow> ct) ''application/json''"
      and j: "json r = Fulfils t' d"
      by blast
    have "(\<forall>t r t' d. up = Fulfils t r \<and> json r = Fulfils t' d \<longrightarrow> fallback_free d) \<longrightarrow>
            fallback_free d"
      using up j by blast
    then show ?thesis
      using transformNewsData_without_id [of clock1 1 d clock2 1]
            transformNewsData_fallback_free [of d clock1 1 clock2 1]
      unfolding up
      by (auto simp add: handler_status [OF g t o i j] handler_articles [OF g t o i j])
  next
    case False
    show ?thesis
    proof (cases "method' req = ''GET''")
      case True
      with False have "\<forall>t r t' data. up = Fulfils t r \<and> t < 8000 \<and> ok r \<and>
             includes' (case content_type r of None \<Rightarrow> [] | Some ct \<Rightarrow> ct) ''application/json''
             \<longrightarrow> json r \<noteq> Fulfils t' data"
        by blast
      from handler_off_json_path [OF this, of clock1 node_env req clock2]
      show ?thesis by (simp add: body_field_def)
    next
      case False
      from handler_not_GET [OF this, of clock1 node_env up clock2]
      show ?thesis by simp
    qed
  qed
  show ?thesis
    using h transformNewsData_without_id [of clock1 k1 data clock2 k2]
      transformNewsData_fallback_free [of data clock1 k1 clock2 k2]
      transformSvelteKitData_without_id [of now1 random1 j1 data now2 random2 j2]
      transformSvelteKitData_random_free' [of data now1 random1 j1 now2 random2 j2]
    by blast
qed

theorem articles_modulo_clock_witness:
  "fallback_free (payload_with [dual_entry]) \<and> random_free (payload_with [dual_entry])
   \<and> articles_of (transformNewsData fixed_clock 1 (payload_with [dual_entry])) = [plain_article]
   \<and> articles_of (transformNewsData later_clock 1 (payload_with [dual_entry])) = [plain_article]
   \<and> res_status (handler fixed_clock None
         (Fulfils 120 (json_response (payload_with [dual_entry]))) GET) =
       res_status (handler later_clock None
         (Fulfils 120 (json_response (payload_with [dual_entry]))) GET)
   \<and> body_field (handler fixed_clock None
         (Fulfils 120 (json_response (payload_with [dual_entry]))) GET) ''articles'' =
       body_field (handler later_clock None
         (Fulfils 120 (json_response (payload_with [dual_entry]))) GET) ''articles''
   \<and> sk_articles_of (transformSvelteKitData 1770000000000 fixed_random 0
         (payload_with [dual_entry])) =
       sk_articles_of (transformSvelteKitData 1770000060000 other_random 0
         (payload_with [dual_entry]))"
  using articles_modulo_clock
          [of fixed_clock None "Fulfils 120 (json_response (payload_with [dual_entry]))"
              GET later_clock 1 "payload_with [dual_entry]" 1
              1770000000000 fixed_random 0 1770000060000 other_random 0]
  by (simp add: eval_normalizer json_response_simps fallback_free_def random_free_def
        dual_entry_def plain_article_def uses_random_def url_tail_def opt_member_def)

section \<open>The fields of an article\<close>

lemma sk_map_articles_all2:
  "sk_map_articles random k xs = Inr as \<Longrightarrow>
   list_all2 (\<lambda>item a. \<exists>rnd. sk_make_article rnd item = Inr a) xs as"
proof (induction xs arbitrary: k as)
  case Nil
  then show ?case by simp
next
  case (Cons x xs)
  then show ?case
    by (auto split: sum.splits)
qed

lemma prefixed_Inr:
  assumes "prefixed v = Inr p"
  shows "if truthy v
         then \<exists>str. ToString v = Inr str \<and> p = Some (''https://stockanalysis.com'' @ str)
         else p = None"
  using assms by (auto simp add: prefixed_def split: sum.splits)

lemma sk_make_article_image:
  assumes "sk_make_article rnd item = Inr a"
  shows "prefixed (opt_member item ''image'') = Inr (sk_imageUrl a)"
  using assms by (auto simp add: sk_make_article_def split: sum.splits if_splits)

lemma transformSvelteKitData_News:
  assumes "articlesNode data = JArr entries"
      and "transformSvelteKitData now random j data = Inr (News lu as)"
  shows "\<exists>as0. sk_map_articles random j entries = Inr as0 \<and> as = filter sk_keep as0"
  using assms
  by (auto simp add: transformSvelteKitData_def normalize_news_def split: sum.splits if_splits)

lemma transformSvelteKitData_News_array:
  assumes "transformSvelteKitData now random j data = Inr (News lu as)"
  shows "\<exists>entries. articlesNode data = JArr entries"
  using assms
  by (cases "articlesNode data")
     (auto simp add: transformSvelteKitData_def normalize_news_def split: sum.splits if_splits)

lemma sk_map_articles_made:
  "sk_map_articles random k xs = Inr as \<Longrightarrow>
   \<forall>a \<in> set as. \<exists>rnd item. sk_make_article rnd item = Inr a"
proof (induction xs arbitrary: k as)
  case Nil
  then show ?case by simp
next
  case (Cons x xs)
  then show ?case
    by (fastforce split: sum.splits)
qed

text \<open>No property of an article the callback returns is \<^verbatim>\<open>undefined\<close>, so that
  \<^verbatim>\<open>JSON.stringify\<close> keeps all seven.\<close>

lemma or_else_defined: "b \<noteq> JUndefined \<Longrightarrow> or_else a b \<noteq> JUndefined"
  by (auto simp add: or_else_def)

lemma sk_make_article_defined:
  assumes "sk_make_article rnd item = Inr a"
  shows "sk_id a \<noteq> JUndefined \<and> sk_title a \<noteq> JUndefined \<and> sk_summary a \<noteq> JUndefined \<and>
         sk_publishedAt a \<noteq> JUndefined"
proof -
  have "sk_id a \<noteq> JUndefined"
    using assms
    by (auto simp add: sk_make_article_def or_else_defined split: sum.splits if_splits)
  moreover have "sk_title a \<noteq> JUndefined \<and> sk_summary a \<noteq> JUndefined \<and>
         sk_publishedAt a \<noteq> JUndefined"
    using assms
    by (auto simp add: sk_make_article_def or_else_defined split: sum.splits if_splits)
  ultimately show ?thesis by simp
qed

lemma sk_article_object_sent:
  assumes "sk_make_article rnd item = Inr a"
  shows "property_names (to_json (sk_article_object a)) =
            [''id'', ''title'', ''summary'', ''url'', ''source'', ''publishedAt'', ''imageUrl'']
        \<and> get_field (to_json (sk_article_object a)) ''imageUrl'' =
            (case sk_imageUrl a of None \<Rightarrow> JNull | Some str \<Rightarrow> JStr str)"
  using sk_make_article_defined [OF assms]
  by (simp add: sk_article_object_def own_property_def split: option.splits)

text \<open>Every exception the normalizer catches has a message, so that the \<^verbatim>\<open>error\<close> of the
  object it returns is truthy, and the handler answers 200 for the envelope only.\<close>

lemma ToString_message:
  "ToString v = Inl e \<Longrightarrow> err_message e \<noteq> []"
  "join xs = Inl e \<Longrightarrow> err_message e \<noteq> []"
  by (induction v and xs arbitrary: e and e rule: ToString_join.induct)
     (auto simp add: TypeError_def split: sum.splits if_splits)

lemma ToNumber_message: "ToNumber v = Inl e \<Longrightarrow> err_message e \<noteq> []"
  using ToString_message(1) [of v e]
  by (cases v) (auto split: sum.splits)

lemma published_at_message: "published_at d = Inl e \<Longrightarrow> err_message e \<noteq> []"
  by (auto simp add: published_at_def Date_toISOString_def RangeError_def ToNumber_message
        split: if_splits sum.splits option.splits)

lemma not_callable_message: "err_message (not_callable v expr m) \<noteq> []"
  by (simp add: not_callable_def TypeError_def)

lemma make_article_message:
  assumes "make_article now item = Inl e"
  shows "err_message e \<noteq> []"
proof (cases "nullish item")
  case True
  with assms show ?thesis
    by (auto simp add: make_article_def get_member_def TypeError_def)
next
  case nn: False
  show ?thesis
  proof (cases "get_field item ''u''")
    case (JStr us)
    show ?thesis
    proof (cases "get_field item ''t''")
      case t: (JStr ts)
      show ?thesis
      proof (cases "if truthy (get_field item ''s'') then get_field item ''s'' else JStr []")
        case s: (JStr ss)
        with assms nn JStr t show ?thesis
          by (cases "published_at (get_field item ''d'')")
             (simp_all add: make_article_def get_member_def Let_def published_at_message)
      qed (use assms nn JStr t in
            \<open>auto simp add: make_article_def get_member_def Let_def not_callable_message\<close>)
    qed (use assms nn JStr in
          \<open>auto simp add: make_article_def get_member_def Let_def not_callable_message\<close>)
  qed (use assms nn in
        \<open>auto simp add: make_article_def get_member_def Let_def not_callable_message\<close>)
qed

lemma map_articles_message:
  "map_articles clock k xs = Inl e \<Longrightarrow> err_message e \<noteq> []"
proof (induction xs arbitrary: k)
  case Nil
  then show ?case by simp
next
  case (Cons x xs)
  then show ?case
    by (auto simp add: make_article_message split: sum.splits prod.splits)
qed

lemma transformNewsData_error:
  "truthy (error_of (transformNewsData clock k data)) \<or>
   (\<exists>e. transformNewsData clock k data = Success e)"
proof (cases "transformNewsData clock k data")
  case (Caught m)
  then have "m \<noteq> []"
    by (auto simp add: transformNewsData_def Let_def map_articles_message
          split: jsval.splits sum.splits prod.splits)
  with Caught show ?thesis by simp
qed simp_all

text \<open>A GET request is answered with status 200 on one path only.\<close>

lemma handler_200:
  assumes "method' req = ''GET''"
      and "res_status (handler clock node_env up req) = Some 200"
  shows "\<exists>t r t' data e. up = Fulfils t r \<and> t < 8000 \<and> ok r \<and>
           includes' (case content_type r of None \<Rightarrow> [] | Some ct \<Rightarrow> ct) ''application/json'' \<and>
           json r = Fulfils t' data \<and> transformNewsData clock 1 data = Success e"
proof (cases "settled_before 8000 up")
  case False
  with assms show ?thesis by (simp add: handler_timeout)
next
  case True
  show ?thesis
  proof (cases up)
    case Never_settles
    with True show ?thesis by (simp add: settled_before_def)
  next
    case (Rejects t e)
    with True have "t < 8000" by (simp add: settled_before_def)
    with assms Rejects show ?thesis
      by (simp add: handler_rejected on_error_def split: if_splits)
  next
    case (Fulfils t r)
    with True have t: "t < 8000" by (simp add: settled_before_def)
    show ?thesis
    proof (cases "ok r \<and>
        includes' (case content_type r of None \<Rightarrow> [] | Some ct \<Rightarrow> ct) ''application/json''")
      case False
      with assms Fulfils show ?thesis
        by (cases "body_text r")
           (simp_all add: handler_resolved [OF assms(1) t] on_response_blocked on_error_def
              split: if_splits)
    next
      case j: True
      show ?thesis
      proof (cases "json r")
        case (Fulfils t' data)
        with assms(2) \<open>up = Fulfils t r\<close> j
        have "\<not> truthy (error_of (transformNewsData clock 1 data))"
          by (simp add: handler_status [OF assms(1) t] split: if_splits)
        then obtain e where "transformNewsData clock 1 data = Success e"
          using transformNewsData_error [of clock 1 data] by blast
        with \<open>up = Fulfils t r\<close> t j Fulfils show ?thesis by blast
      next
        case (Rejects t' e)
        with assms \<open>up = Fulfils t r\<close> j show ?thesis
          by (simp add: handler_resolved [OF assms(1) t] on_response_def on_error_def
                split: if_splits)
      next
        case Never_settles
        with assms \<open>up = Fulfils t r\<close> j show ?thesis
          by (simp add: handler_resolved [OF assms(1) t] on_response_def)
      qed
    qed
  qed
qed

text \<open>
  Claim C9 says that every Article of a successful response has exactly the fields of the
  output record type, imageUrl included, an absolute URL when the raw entry has an image
  path. The object literal of \<^verbatim>\<open>transformNewsData\<close> has six properties and no imageUrl: the
  response for an entry that carries an image path shows none.
\<close>

theorem missing_image_url_counterexample:
  "keep pictured_entry \<and> get_field pictured_entry ''image'' = JStr ''/img/e.png''
   \<and> res_status (handler fixed_clock None
         (Fulfils 120 (json_response (payload_with [pictured_entry]))) GET) = Some 200
   \<and> body_field (handler fixed_clock None
         (Fulfils 120 (json_response (payload_with [pictured_entry]))) GET) ''articles'' =
       JArr [JObj [(''id'', JStr ''e''), (''title'', JStr ''E''), (''summary'', JStr []),
                   (''url'', JStr ''https://stockanalysis.com/news/e''), (''publishedAt'', JNull),
                   (''source'', JStr ''StockAnalysis'')]]"
proof -
  have g: "method' GET = ''GET''" by (simp add: GET_def)
  have t: "(120::nat) < 8000" by simp
  have a: "transformNewsData fixed_clock 1 (payload_with [pictured_entry]) =
    Success \<lparr>success = True, count = 1, lastUpdated = iso_of_time (int (fixed_clock 1)),
      articles = [\<lparr>id' = ''e'', title = ''E'', summary = [],
         url = ''https://stockanalysis.com/news/e'', publishedAt = None,
         source = ''StockAnalysis''\<rparr>]\<rparr>"
    by (simp add: eval_normalizer pictured_entry_def)
  have k: "keep pictured_entry \<and> get_field pictured_entry ''image'' = JStr ''/img/e.png''"
    by (simp add: keep_def pictured_entry_def own_property_def)
  show ?thesis
    unfolding handler_articles [OF g t json_response_simps]
      handler_status [OF g t json_response_simps] a
    using k by (simp add: article_object_def)
qed

text \<open>
  C9 as amended: every Article of a successful response of the handler, that is of every
  answer with status 200 to a GET request, has exactly the fields id, title, summary, url,
  publishedAt and source, and no imageUrl, one such Article for each kept entry, whether or
  not the entry carries an image path. Every article of the earlier normalizer
  \<^verbatim>\<open>transformSvelteKitData\<close> is sent with exactly the fields id, title, summary, url, source,
  publishedAt and imageUrl; its imageUrl is the origin followed by the image path of its
  entry when that is truthy, and null otherwise.
\<close>

theorem article_fields:
  "(method' req = ''GET'' \<and> res_status (handler clock node_env up req) = Some 200 \<longrightarrow>
      (\<exists>t r t' data entries objs.
          up = Fulfils t r \<and> json r = Fulfils t' data \<and> articlesNode data = JArr entries \<and>
          body_field (handler clock node_env up req) ''articles'' = JArr objs \<and>
          list_all2 (\<lambda>item obj.
              property_names obj =
                [''id'', ''title'', ''summary'', ''url'', ''publishedAt'', ''source''] \<and>
              get_field obj ''imageUrl'' = JUndefined)
            (filter keep entries) objs))
   \<and> (transformSvelteKitData now random j data' = Inr (News lu as) \<longrightarrow>
        (\<forall>a \<in> set as.
            property_names (to_json (sk_article_object a)) =
              [''id'', ''title'', ''summary'', ''url'', ''source'', ''publishedAt'', ''imageUrl'']
          \<and> get_field (to_json (sk_article_object a)) ''imageUrl'' =
              (case sk_imageUrl a of None \<Rightarrow> JNull | Some str \<Rightarrow> JStr str))
      \<and> (\<exists>entries' as0. articlesNode data' = JArr entries' \<and> as = filter sk_keep as0 \<and>
            list_all2 (\<lambda>item a.
                if truthy (opt_member item ''image'')
                then \<exists>str. ToString (opt_member item ''image'') = Inr str \<and>
                       sk_imageUrl a = Some (''https://stockanalysis.com'' @ str)
                else sk_imageUrl a = None)
              entries' as0))"
proof -
  have later: "\<exists>t r t' data entries objs.
          up = Fulfils t r \<and> json r = Fulfils t' data \<and> articlesNode data = JArr entries \<and>
          body_field (handler clock node_env up req) ''articles'' = JArr objs \<and>
          list_all2 (\<lambda>item obj.
              property_names obj =
                [''id'', ''title'', ''summary'', ''url'', ''publishedAt'', ''source''] \<and>
              get_field obj ''imageUrl'' = JUndefined)
            (filter keep entries) objs"
    if g: "method' req = ''GET''" and st: "res_status (handler clock node_env up req) = Some 200"
  proof -
    obtain t r t' data e where up: "up = Fulfils t r" and t: "t < 8000" and o: "ok r"
      and i: "includes' (case content_type r of None \<Rightarrow> [] | Some ct \<Rightarrow> ct) ''application/json''"
      and j: "json r = Fulfils t' data" and s: "transformNewsData clock 1 data = Success e"
      using handler_200 [OF g st] by blast
    obtain entries where n: "articlesNode data = JArr entries"
      using s by (cases "articlesNode data") (simp_all add: transformNewsData_def Let_def)
    have b: "body_field (handler clock node_env up req) ''articles'' =
               JArr (map article_object (articles e))"
      unfolding up using s by (simp add: handler_articles [OF g t o i j])
    have "list_all2 (\<lambda>item a. keep item \<and> (\<exists>now. make_article now item = Inr a))
            (filter keep entries) (articles e)"
      using n s by (rule kept_entries_articles)
    then have "list_all2 (\<lambda>item a.
                  property_names (article_object a) =
                    [''id'', ''title'', ''summary'', ''url'', ''publishedAt'', ''source''] \<and>
                  get_field (article_object a) ''imageUrl'' = JUndefined)
                (filter keep entries) (articles e)"
      by (rule list_all2_mono) (simp add: article_object_def own_property_def)
    then have "list_all2 (\<lambda>item obj.
                  property_names obj =
                    [''id'', ''title'', ''summary'', ''url'', ''publishedAt'', ''source''] \<and>
                  get_field obj ''imageUrl'' = JUndefined)
                (filter keep entries) (map article_object (articles e))"
      by (simp add: list_all2_map2)
    with up j n b show ?thesis
      by blast
  qed
  have earlier: "(\<forall>a \<in> set as.
            property_names (to_json (sk_article_object a)) =
              [''id'', ''title'', ''summary'', ''url'', ''source'', ''publishedAt'', ''imageUrl'']
          \<and> get_field (to_json (sk_article_object a)) ''imageUrl'' =
              (case sk_imageUrl a of None \<Rightarrow> JNull | Some str \<Rightarrow> JStr str))
      \<and> (\<exists>entries' as0. articlesNode data' = JArr entries' \<and> as = filter sk_keep as0 \<and>
            list_all2 (\<lambda>item a.
                if truthy (opt_member item ''image'')
                then \<exists>str. ToString (opt_member item ''image'') = Inr str \<and>
                       sk_imageUrl a = Some (''https://stockanalysis.com'' @ str)
                else sk_imageUrl a = None)
              entries' as0)"
    if sk: "transformSvelteKitData now random j data' = Inr (News lu as)"
  proof
    obtain entries' where n: "articlesNode data' = JArr entries'"
      using transformSvelteKitData_News_array [OF sk] by blast
    obtain as0 where m: "sk_map_articles random j entries' = Inr as0"
      and f: "as = filter sk_keep as0"
      using transformSvelteKitData_News [OF n sk] by blast
    show "\<forall>a \<in> set as.
            property_names (to_json (sk_article_object a)) =
              [''id'', ''title'', ''summary'', ''url'', ''source'', ''publishedAt'', ''imageUrl'']
          \<and> get_field (to_json (sk_article_object a)) ''imageUrl'' =
              (case sk_imageUrl a of None \<Rightarrow> JNull | Some str \<Rightarrow> JStr str)"
    proof
      fix a
      assume "a \<in> set as"
      with f have "a \<in> set as0" by simp
      with sk_map_articles_made [OF m] obtain rnd item where "sk_make_article rnd item = Inr a"
        by blast
      then show "property_names (to_json (sk_article_object a)) =
              [''id'', ''title'', ''summary'', ''url'', ''source'', ''publishedAt'', ''imageUrl'']
          \<and> get_field (to_json (sk_article_object a)) ''imageUrl'' =
              (case sk_imageUrl a of None \<Rightarrow> JNull | Some str \<Rightarrow> JStr str)"
        by (rule sk_article_object_sent)
    qed
    have "list_all2 (\<lambda>item a.
                   if truthy (opt_member item ''image'')
                   then \<exists>str. ToString (opt_member item ''image'') = Inr str \<and>
                          sk_imageUrl a = Some (''https://stockanalysis.com'' @ str)
                   else sk_imageUrl a = None)
                 entries' as0"
      using sk_map_articles_all2 [OF m]
    proof (rule list_all2_mono)
      fix item a
      assume "\<exists>rnd. sk_make_article rnd item = Inr a"
      then have "prefixed (opt_member item ''image'') = Inr (sk_imageUrl a)"
        using sk_make_article_image by blast
      then show "if truthy (opt_member item ''image'')
                 then \<exists>str. ToString (opt_member item ''image'') = Inr str \<and>
                        sk_imageUrl a = Some (''https://stockanalysis.com'' @ str)
                 else sk_imageUrl a = None"
        by (rule prefixed_Inr)
    qed
    with n f show "\<exists>entries' as0. articlesNode data' = JArr entries' \<and> as = filter sk_keep as0 \<and>
            list_all2 (\<lambda>item a.
                if truthy (opt_member item ''image'')
                then \<exists>str. ToString (opt_member item ''image'') = Inr str \<and>
                       sk_imageUrl a = Some (''https://stockanalysis.com'' @ str)
                else sk_imageUrl a = None)
              entries' as0"
      by blast
  qed
  show ?thesis
    using later earlier by blast
qed

theorem article_fields_witness:
  "method' GET = ''GET''
   \<and> res_status (handler fixed_clock None
         (Fulfils 120 (json_response (payload_with [pictured_entry, mistyped_sk_entry]))) GET) =
       Some 200
   \<and> keep pictured_entry \<and> get_field pictured_entry ''image'' = JStr ''/img/e.png''
   \<and> body_field (handler fixed_clock None
         (Fulfils 120 (json_response (payload_with [pictured_entry, mistyped_sk_entry]))) GET)
         ''articles'' =
       JArr [JObj [(''id'', JStr ''e''), (''title'', JStr ''E''), (''summary'', JStr []),
                   (''url'', JStr ''https://stockanalysis.com/news/e''), (''publishedAt'', JNull),
                   (''source'', JStr ''StockAnalysis'')]]
   \<and> transformSvelteKitData 1770000000000 fixed_random 0
         (payload_with [pictured_entry, mistyped_sk_entry]) = Inr Parsing_failed
   \<and> transformSvelteKitData 1770000000000 fixed_random 0
         (payload_with [mistyped_entry, sk_entry, plain_sk_entry]) =
       Inr (News (iso_of_time 1770000000000)
         [\<lparr>sk_id = JStr ''f'', sk_title = JStr ''F'', sk_summary = JStr [],
           sk_url = ''https://stockanalysis.com/news/f'', sk_source = ''StockAnalysis'',
           sk_publishedAt = JNull, sk_imageUrl = Some ''https://stockanalysis.com/img/f.png''\<rparr>,
          \<lparr>sk_id = JStr ''g'', sk_title = JStr ''G'', sk_summary = JStr [],
           sk_url = ''https://stockanalysis.com/news/g'', sk_source = ''StockAnalysis'',
           sk_publishedAt = JNull, sk_imageUrl = None\<rparr>])
   \<and> transformNewsData fixed_clock 1 (payload_with [mistyped_entry, sk_entry, plain_sk_entry]) =
       Caught ''item.u.split is not a function''
   \<and> to_json (sk_article_object
         \<lparr>sk_id = JStr ''g'', sk_title = JStr ''G'', sk_summary = JStr [],
          sk_url = ''https://stockanalysis.com/news/g'', sk_source = ''StockAnalysis'',
          sk_publishedAt = JNull, sk_imageUrl = None\<rparr>) =
       JObj [(''id'', JStr ''g''), (''title'', JStr ''G''), (''summary'', JStr []),
             (''url'', JStr ''https://stockanalysis.com/news/g''),
             (''source'', JStr ''StockAnalysis''), (''publishedAt'', JNull),
             (''imageUrl'', JNull)]"
proof -
  have g: "method' GET = ''GET''" by (simp add: GET_def)
  have t: "(120::nat) < 8000" by simp
  have a: "transformNewsData fixed_clock 1 (payload_with [pictured_entry, mistyped_sk_entry]) =
    Success \<lparr>success = True, count = 1, lastUpdated = iso_of_time (int (fixed_clock 1)),
      articles = [\<lparr>id' = ''e'', title = ''E'', summary = [],
         url = ''https://stockanalysis.com/news/e'', publishedAt = None,
         source = ''StockAnalysis''\<rparr>]\<rparr>"
    by (simp add: eval_normalizer pictured_entry_def mistyped_sk_entry_def)
  have k: "keep pictured_entry \<and> get_field pictured_entry ''image'' = JStr ''/img/e.png''"
    by (simp add: keep_def pictured_entry_def own_property_def)
  have st: "res_status (handler fixed_clock None
         (Fulfils 120 (json_response (payload_with [pictured_entry, mistyped_sk_entry]))) GET) =
       Some 200"
    unfolding handler_status [OF g t json_response_simps] a by simp
  have sk: "transformSvelteKitData 1770000000000 fixed_random 0
         (payload_with [mistyped_entry, sk_entry, plain_sk_entry]) =
       Inr (News (iso_of_time 1770000000000)
         [\<lparr>sk_id = JStr ''f'', sk_title = JStr ''F'', sk_summary = JStr [],
           sk_url = ''https://stockanalysis.com/news/f'', sk_source = ''StockAnalysis'',
           sk_publishedAt = JNull, sk_imageUrl = Some ''https://stockanalysis.com/img/f.png''\<rparr>,
          \<lparr>sk_id = JStr ''g'', sk_title = JStr ''G'', sk_summary = JStr [],
           sk_url = ''https://stockanalysis.com/news/g'', sk_source = ''StockAnalysis'',
           sk_publishedAt = JNull, sk_imageUrl = None\<rparr>])"
    by (simp add: eval_sk mistyped_entry_def sk_entry_def plain_sk_entry_def)
  have skf: "transformSvelteKitData 1770000000000 fixed_random 0
         (payload_with [pictured_entry, mistyped_sk_entry]) = Inr Parsing_failed"
  proof -
    have "payload_with [pictured_entry, mistyped_sk_entry] \<noteq> JUndefined"
      by (simp add: payload_with_def)
    then show ?thesis
      by (simp add: eval_sk pictured_entry_def mistyped_sk_entry_def not_callable_def)
  qed
  have nf: "transformNewsData fixed_clock 1
              (payload_with [mistyped_entry, sk_entry, plain_sk_entry]) =
            Caught ''item.u.split is not a function''"
    by (simp add: eval_normalizer mistyped_entry_def sk_entry_def plain_sk_entry_def
          not_callable_def TypeError_def)
  show ?thesis
    using article_fields
            [of GET fixed_clock None
                "Fulfils 120 (json_response (payload_with [pictured_entry, mistyped_sk_entry]))"
                1770000000000 fixed_random 0
                "payload_with [mistyped_entry, sk_entry, plain_sk_entry]"
                "iso_of_time 1770000000000"
                "[\<lparr>sk_id = JStr ''f'', sk_title = JStr ''F'', sk_summary = JStr [],
                   sk_url = ''https://stockanalysis.com/news/f'', sk_source = ''StockAnalysis'',
                   sk_publishedAt = JNull,
                   sk_imageUrl = Some ''https://stockanalysis.com/img/f.png''\<rparr>,
                  \<lparr>sk_id = JStr ''g'', sk_title = JStr ''G'', sk_summary = JStr [],
                   sk_url = ''https://stockanalysis.com/news/g'', sk_source = ''StockAnalysis'',
                   sk_publishedAt = JNull, sk_imageUrl = None\<rparr>]"]
          g st k sk skf nf
    unfolding handler_articles [OF g t json_response_simps] a
    by (simp add: article_object_def sk_article_object_def)
qed

end
